theory Spec2Isabelle
  imports Main "HOL-Library.Word"
begin

unbundle bit_operations_syntax

section \<open>Bytes, slices and \<open>struct.unpack\<close>\<close>

text \<open>
  The scripts under \<open>tools/\<close> work on Python \<open>bytes\<close> objects. A byte is an 8-bit
  word; every integer obtained from bytes is an unbounded Python \<open>int\<close> that is never
  negative, modelled as \<open>nat\<close>.
\<close>

type_synonym byte = "8 word"

text \<open>Python's \<open>xs[a:b]\<close> for \<open>0 \<le> a\<close> and \<open>0 \<le> b\<close>: it never raises and is cut at the end.\<close>

definition slice :: "'a list \<Rightarrow> nat \<Rightarrow> nat \<Rightarrow> 'a list" where
  "slice xs a b = take (b - a) (drop a xs)"

text \<open>\<open>bytes.startswith\<close>.\<close>

definition startswith :: "'a list \<Rightarrow> 'a list \<Rightarrow> bool" where
  "startswith xs p = (take (length p) xs = p)"

text \<open>
  \<open>struct.unpack('<H', s)[0]\<close> and \<open>struct.unpack('<I', s)[0]\<close>: the little-endian value
  of the bytes of \<open>s\<close>. Python raises \<open>struct.error\<close> unless \<open>s\<close> has exactly 2 (or 4)
  bytes; at every call below the slice has that length by the guard in front of it
  (lemma \<open>length_slice\<close>), with the one exception of the capture header of
  \<open>parse_btsnoop\<close>, where the error is a branch of the model.
\<close>

fun unpack_le :: "byte list \<Rightarrow> nat" where
  "unpack_le [] = 0"
| "unpack_le (b # bs) = unat b + 256 * unpack_le bs"

text \<open>The big-endian formats \<open>'>I'\<close> and \<open>'>Q'\<close>.\<close>

definition unpack_be :: "byte list \<Rightarrow> nat" where
  "unpack_be bs = unpack_le (rev bs)"

text \<open>\<open>'%02X'\<close>: upper-case hexadecimal, at least two digits.\<close>

definition hex_digit :: "nat \<Rightarrow> char" where
  "hex_digit d = ''0123456789ABCDEF'' ! d"

fun hex_upper :: "nat \<Rightarrow> string" where
  "hex_upper n = (if n < 16 then [hex_digit n] else hex_upper (n div 16) @ [hex_digit (n mod 16)])"

definition hex02X :: "nat \<Rightarrow> string" where
  "hex02X n = (if n < 16 then CHR ''0'' # hex_upper n else hex_upper n)"

text \<open>\<open>bytes.hex().upper()\<close>: two digits for each byte.\<close>

definition bytes_hex_upper :: "byte list \<Rightarrow> string" where
  "bytes_hex_upper bs = concat (map (\<lambda>b. hex02X (unat b)) bs)"

text \<open>\<open>needle in haystack\<close> on strings.\<close>

fun contains :: "'a list \<Rightarrow> 'a list \<Rightarrow> bool" where
  "contains [] p = (p = [])"
| "contains (c # cs) p = (startswith (c # cs) p \<or> contains cs p)"

text \<open>
  \<open>str.strip()\<close>: removes leading and trailing white space. The strings it is applied to
  are ASCII, where Python's white space is TAB, LF, VT, FF, CR, FS, GS, RS, US and space.
\<close>

definition is_space :: "char \<Rightarrow> bool" where
  "is_space c = (of_char c \<in> {9, 10, 11, 12, 13, 28, 29, 30, 31, 32 :: nat})"

definition strip :: "string \<Rightarrow> string" where
  "strip s = rev (dropWhile is_space (rev (dropWhile is_space s)))"

section \<open>Vendor messages: \<open>analyze_autel_protocol_v2.py\<close>\<close>

datatype direction = TX | RX

definition AUTEL_MAGIC :: "byte list" where
  "AUTEL_MAGIC = [0x55, 0x55, 0xAA, 0xAA]"

text \<open>
  The dictionary that \<open>parse_autel_packet\<close> fills once the header is complete. The keys
  \<open>payload\<close>, \<open>payload_hex\<close>, \<open>crc\<close> and \<open>ascii\<close> are optional.
\<close>

record aap2_msg =
  m_direction :: direction
  m_total_len :: nat
  m_session_id :: nat
  m_msg_counter :: nat
  m_payload_len :: nat
  m_flags :: nat
  m_status :: nat
  m_reserved :: nat
  m_payload :: "byte list option"
  m_payload_hex :: "string option"
  m_crc :: "nat option"
  m_ascii :: "string option"

text \<open>
  The three shapes of the result: \<open>valid = False\<close>; \<open>valid = True, short = True\<close>;
  \<open>valid = True, short = False\<close> with the header fields.
\<close>

datatype aap2_result = Invalid direction | Short direction | Parsed aap2_msg

text \<open>
  The search for the magic bytes (the first \<open>if\<close> of \<open>parse_autel_packet\<close>): the value of
  the local variable \<open>offset\<close>, or \<open>None\<close> where the function returns the invalid result.
\<close>

definition aap2_magic_offset :: "byte list \<Rightarrow> direction \<Rightarrow> nat option" where
  "aap2_magic_offset data dir =
     (if dir = TX then
        (if \<not> startswith data AUTEL_MAGIC then None else Some 0)
      else
        (if startswith data (0 # AUTEL_MAGIC) then Some 1
         else if startswith data AUTEL_MAGIC then Some 0
         else None))"

text \<open>
  \<open>payload.decode('ascii', errors='ignore')\<close> drops every byte above 127; the join keeps
  the characters \<open>c\<close> with \<open>32 <= ord(c) < 127\<close>; the key \<open>ascii\<close> is set to the stripped
  string when more than 3 characters are kept.
\<close>

definition ascii_printable :: "byte list \<Rightarrow> string" where
  "ascii_printable payload =
     map (\<lambda>b. char_of (unat b))
       (filter (\<lambda>b. 32 \<le> unat b \<and> unat b < 127) (filter (\<lambda>b. unat b < 128) payload))"

definition ascii_excerpt :: "byte list \<Rightarrow> string option" where
  "ascii_excerpt payload =
     (let printable = ascii_printable payload
      in if length printable > 3 then Some (strip printable) else None)"

text \<open>The body of the \<open>try\<close> block, for a frame with at least \<open>offset + 40\<close> bytes.\<close>

definition aap2_parse_fields :: "byte list \<Rightarrow> direction \<Rightarrow> nat \<Rightarrow> aap2_msg" where
  "aap2_parse_fields data dir offset =
     (let total_len = unpack_le (slice data (offset + 4) (offset + 8));
          session_id = unpack_le (slice data (offset + 8) (offset + 12));
          msg_counter = unpack_le (slice data (offset + 12) (offset + 16));
          payload_len = unpack_le (slice data (offset + 16) (offset + 20));
          flags = unpack_le (slice data (offset + 24) (offset + 28));
          status = unpack_le (slice data (offset + 28) (offset + 32));
          reserved = unpack_le (slice data (offset + 32) (offset + 36));
          payload_start = offset + 36;
          payload_end = offset + 4 + total_len - 4;
          has_payload = (payload_end > payload_start \<and> payload_end \<le> length data);
          payload = slice data payload_start payload_end
      in \<lparr> m_direction = dir,
           m_total_len = total_len,
           m_session_id = session_id,
           m_msg_counter = msg_counter,
           m_payload_len = payload_len,
           m_flags = flags,
           m_status = status,
           m_reserved = reserved,
           m_payload = (if has_payload then Some payload else None),
           m_payload_hex = (if has_payload then Some (bytes_hex_upper payload) else None),
           m_crc = (if has_payload \<and> payload_end + 4 \<le> length data
                    then Some (unpack_le (slice data payload_end (payload_end + 4))) else None),
           m_ascii = (if has_payload then ascii_excerpt payload else None) \<rparr>)"

definition aap2_parse_autel_packet :: "byte list \<Rightarrow> direction \<Rightarrow> aap2_result" where
  "aap2_parse_autel_packet data dir =
     (case aap2_magic_offset data dir of
        None \<Rightarrow> Invalid dir
      | Some offset \<Rightarrow>
          if length data < offset + 40 then Short dir
          else Parsed (aap2_parse_fields data dir offset))"

text \<open>
  \<open>identify_message_type(pkt_data, direction)\<close>. A key that is absent, an empty string
  and an empty payload are all false in the conditions \<open>pkt_data.get('ascii')\<close> and
  \<open>if payload\<close>.
\<close>

definition identify_message_type :: "aap2_msg \<Rightarrow> direction \<Rightarrow> string" where
  "identify_message_type pkt_data dir =
     (let ascii_content = (case m_ascii pkt_data of None \<Rightarrow> [] | Some s \<Rightarrow> s);
          status = m_status pkt_data;
          reserved = m_reserved pkt_data;
          payload = (case m_payload pkt_data of None \<Rightarrow> [] | Some p \<Rightarrow> p)
      in
      if ascii_content \<noteq> [] \<and> contains ascii_content ''J2534'' then
        (if dir = RX then ''DEVICE_ID_RESPONSE'' else ''DEVICE_ID_REQUEST'')
      else if ascii_content \<noteq> [] \<and> contains ascii_content ''AUTEL'' then ''VENDOR_ID_RESPONSE''
      else if ascii_content \<noteq> [] \<and>
              (contains ascii_content ''Mar '' \<or> contains ascii_content ''V2.'') then
        ''FIRMWARE_VERSION_RESPONSE''
      else if ascii_content \<noteq> [] \<and> contains ascii_content ''MAXI'' then ''DEVICE_NAME''
      else if payload \<noteq> [] \<and> startswith payload [0x5E, 0x01, 0x00, 0x00] then
        ''PASSTHRU_OPEN_RESPONSE''
      else if payload \<noteq> [] \<and> length payload \<ge> 4 \<and> unpack_le (slice payload 0 4) = 0x0000015E then
        ''PASSTHRU_RESPONSE''
      else if dir = TX \<and> status = 0 \<and> reserved = 0 then ''CONNECT_REQUEST''
      else if dir = TX \<and> status = 1 \<and> reserved = 4 then ''PASSTHRU_OPEN''
      else if dir = TX \<and> status = 1 \<and> reserved = 3 then ''PASSTHRU_CLOSE''
      else if dir = TX \<and> status = 0x0B then ''GET_VERSION''
      else if dir = TX \<and> status = 0x02 then ''READ_DATA''
      else if dir = TX \<and> status = 0x05 then ''WRITE_DATA''
      else if dir = TX \<and> status = 0x08 then ''START_MSG_FILTER''
      else if dir = TX \<and> status = 0x03 then ''DISCONNECT''
      else if dir \<noteq> TX \<and> status = 0 then ''SUCCESS_RESPONSE''
      else ''CMD_'' @ hex02X status @ ''_'' @ hex02X reserved)"

text \<open>
  The classification as the specification words it: an ordered list of rules, each a
  condition and a tag, grouped by what they look at; the first rule whose condition holds
  gives the tag, and the tag built from \<open>(status, reserved)\<close> is the default.
\<close>

definition first_match :: "(bool \<times> string) list \<Rightarrow> string \<Rightarrow> string" where
  "first_match rules dflt = (case find fst rules of Some (_, tag) \<Rightarrow> tag | None \<Rightarrow> dflt)"

definition ascii_rules :: "aap2_msg \<Rightarrow> direction \<Rightarrow> (bool \<times> string) list" where
  "ascii_rules m dir =
     (case m_ascii m of
        None \<Rightarrow> []
      | Some a \<Rightarrow>
          if a = [] then []
          else [(contains a ''J2534'', if dir = RX then ''DEVICE_ID_RESPONSE'' else ''DEVICE_ID_REQUEST''),
                (contains a ''AUTEL'', ''VENDOR_ID_RESPONSE''),
                (contains a ''Mar '' \<or> contains a ''V2.'', ''FIRMWARE_VERSION_RESPONSE''),
                (contains a ''MAXI'', ''DEVICE_NAME'')])"

definition payload_rules :: "aap2_msg \<Rightarrow> (bool \<times> string) list" where
  "payload_rules m =
     (case m_payload m of
        None \<Rightarrow> []
      | Some p \<Rightarrow>
          [(startswith p [0x5E, 0x01, 0x00, 0x00], ''PASSTHRU_OPEN_RESPONSE''),
           (length p \<ge> 4 \<and> unpack_le (take 4 p) = 0x15E, ''PASSTHRU_RESPONSE'')])"

definition direction_rules :: "aap2_msg \<Rightarrow> direction \<Rightarrow> (bool \<times> string) list" where
  "direction_rules m dir =
     (case dir of
        TX \<Rightarrow> [(m_status m = 0 \<and> m_reserved m = 0, ''CONNECT_REQUEST''),
               (m_status m = 1 \<and> m_reserved m = 4, ''PASSTHRU_OPEN''),
               (m_status m = 1 \<and> m_reserved m = 3, ''PASSTHRU_CLOSE''),
               (m_status m = 11, ''GET_VERSION''),
               (m_status m = 2, ''READ_DATA''),
               (m_status m = 5, ''WRITE_DATA''),
               (m_status m = 8, ''START_MSG_FILTER''),
               (m_status m = 3, ''DISCONNECT'')]
      | RX \<Rightarrow> [(m_status m = 0, ''SUCCESS_RESPONSE'')])"

definition default_tag :: "aap2_msg \<Rightarrow> string" where
  "default_tag m = ''CMD_'' @ hex02X (m_status m) @ ''_'' @ hex02X (m_reserved m)"

definition rule_chain_tag :: "aap2_msg \<Rightarrow> direction \<Rightarrow> string" where
  "rule_chain_tag m dir =
     first_match (ascii_rules m dir @ payload_rules m @ direction_rules m dir) (default_tag m)"

section \<open>From capture records to subchannel frames: \<open>analyze_autel_protocol_v2.py\<close>\<close>

datatype pkt_type = EVENT | COMMAND | ACL

text \<open>The dictionaries built by \<open>parse_btsnoop\<close> and by \<open>extract_rfcomm_data\<close>.\<close>

record aap_packet =
  p_timestamp :: nat
  p_direction :: direction
  p_type :: pkt_type
  p_data :: "byte list"

record rfcomm_packet =
  r_timestamp :: nat
  r_direction :: direction
  r_dlci :: nat
  r_data :: "byte list"

text \<open>
  The body of the loop of \<open>extract_rfcomm_data\<close>, in three consecutive parts; \<open>None\<close> is
  \<open>continue\<close>. First the link-layer segment and the channel frame inside it: the channel
  identifier \<open>l2cap_cid\<close> and the bytes \<open>l2cap_data\<close> that follow it.
\<close>

definition aap2_l2cap_frame :: "byte list \<Rightarrow> (nat \<times> byte list) option" where
  "aap2_l2cap_frame data =
     (if length data < 8 then None
      else
        let acl_len = unpack_le (slice data 2 4)
        in if length data < 4 + acl_len then None
           else
             let acl_payload = slice data 4 (4 + acl_len)
             in if length acl_payload < 4 then None
                else Some (unpack_le (slice acl_payload 2 4), drop 4 acl_payload))"

text \<open>
  The variable-length field of an information frame: \<open>(payload_len, payload_start)\<close>.
  The shifts and the \<open>|\<close> are on Python integers.
\<close>

definition rfcomm_length_field :: "byte list \<Rightarrow> (nat \<times> nat) option" where
  "rfcomm_length_field l2cap_data =
     (let length_byte = unat (l2cap_data ! 2)
      in if length_byte AND 1 \<noteq> 0 then Some (drop_bit 1 length_byte, 3)
         else if length l2cap_data < 4 then None
         else Some (drop_bit 1 length_byte OR push_bit 7 (unat (l2cap_data ! 3)), 4))"

text \<open>The subchannel frame: \<open>(dlci, payload)\<close>.\<close>

definition aap2_uih_frame :: "nat \<Rightarrow> byte list \<Rightarrow> (nat \<times> byte list) option" where
  "aap2_uih_frame l2cap_cid l2cap_data =
     (if l2cap_cid < 0x0040 \<or> length l2cap_data < 3 then None
      else
        let addr = unat (l2cap_data ! 0);
            control = unat (l2cap_data ! 1);
            dlci = drop_bit 2 addr
        in if control AND 0xEF \<noteq> 0xEF then None
           else
             case rfcomm_length_field l2cap_data of
               None \<Rightarrow> None
             | Some (payload_len, payload_start) \<Rightarrow>
                 if length l2cap_data \<ge> payload_start + payload_len \<and> payload_len > 0
                 then Some (dlci, slice l2cap_data payload_start (payload_start + payload_len))
                 else None)"

definition aap2_rfcomm_of_packet :: "aap_packet \<Rightarrow> rfcomm_packet option" where
  "aap2_rfcomm_of_packet pkt =
     (if p_type pkt \<noteq> ACL then None
      else
        case aap2_l2cap_frame (p_data pkt) of
          None \<Rightarrow> None
        | Some (l2cap_cid, l2cap_data) \<Rightarrow>
            (case aap2_uih_frame l2cap_cid l2cap_data of
               None \<Rightarrow> None
             | Some (dlci, payload) \<Rightarrow>
                 Some \<lparr> r_timestamp = p_timestamp pkt, r_direction = p_direction pkt,
                        r_dlci = dlci, r_data = payload \<rparr>))"

fun aap2_extract_rfcomm_data :: "aap_packet list \<Rightarrow> rfcomm_packet list" where
  "aap2_extract_rfcomm_data [] = []"
| "aap2_extract_rfcomm_data (pkt # packets) =
     (case aap2_rfcomm_of_packet pkt of
        None \<Rightarrow> aap2_extract_rfcomm_data packets
      | Some r \<Rightarrow> r # aap2_extract_rfcomm_data packets)"

text \<open>
  \<open>main\<close>: the frames of subchannel 12 are parsed; the messages that are valid and not
  short are appended to \<open>parsed_packets\<close>, with the time stamp and the raw bytes, and to
  the list of their session in \<open>sessions\<close> (a \<open>defaultdict(list)\<close>). The result is
  \<open>(parsed_packets, sessions)\<close>; \<open>aap2_main_sessions\<close> is \<open>main\<close> from the list
  \<open>rfcomm_packets\<close> on.
\<close>

record aap2_entry =
  e_msg :: aap2_msg
  e_timestamp :: nat
  e_raw :: "byte list"

definition aap2_dlci12_packets :: "rfcomm_packet list \<Rightarrow> rfcomm_packet list" where
  "aap2_dlci12_packets rfcomm_packets = filter (\<lambda>p. r_dlci p = 12) rfcomm_packets"

definition sessions_append :: "(nat \<rightharpoonup> aap2_entry list) \<Rightarrow> nat \<Rightarrow> aap2_entry \<Rightarrow> (nat \<rightharpoonup> aap2_entry list)" where
  "sessions_append sessions sid e =
     sessions(sid \<mapsto> (case sessions sid of None \<Rightarrow> [] | Some es \<Rightarrow> es) @ [e])"

fun aap2_parse_loop ::
  "rfcomm_packet list \<Rightarrow> aap2_entry list \<times> (nat \<rightharpoonup> aap2_entry list) \<Rightarrow>
   aap2_entry list \<times> (nat \<rightharpoonup> aap2_entry list)" where
  "aap2_parse_loop [] st = st"
| "aap2_parse_loop (pkt # pkts) (parsed_packets, sessions) =
     (case aap2_parse_autel_packet (r_data pkt) (r_direction pkt) of
        Parsed parsed \<Rightarrow>
          (let e = \<lparr> e_msg = parsed, e_timestamp = r_timestamp pkt, e_raw = r_data pkt \<rparr>
           in aap2_parse_loop pkts
                (parsed_packets @ [e], sessions_append sessions (m_session_id parsed) e))
      | _ \<Rightarrow> aap2_parse_loop pkts (parsed_packets, sessions))"

definition aap2_main_sessions ::
  "rfcomm_packet list \<Rightarrow> aap2_entry list \<times> (nat \<rightharpoonup> aap2_entry list)" where
  "aap2_main_sessions rfcomm_packets =
     (let dlci12_packets = aap2_dlci12_packets rfcomm_packets
      in aap2_parse_loop dlci12_packets ([], Map.empty))"

definition aap2_main :: "aap_packet list \<Rightarrow> aap2_entry list \<times> (nat \<rightharpoonup> aap2_entry list)" where
  "aap2_main packets = aap2_main_sessions (aap2_extract_rfcomm_data packets)"

section \<open>The first analyzer: \<open>analyze_autel_protocol.py\<close>\<close>

text \<open>
  \<open>analyze_autel_packet\<close> resolves \<open>offset\<close> to the position after the magic bytes, and
  returns the invalid result for a received frame of fewer than 5 bytes.
\<close>

definition aap_magic_offset :: "byte list \<Rightarrow> direction \<Rightarrow> nat option" where
  "aap_magic_offset data dir =
     (if dir = TX then
        (if \<not> startswith data AUTEL_MAGIC then None else Some 4)
      else
        (if length data < 5 then None
         else if slice data 0 1 = [0] \<and> slice data 1 5 = AUTEL_MAGIC then Some 5
         else if startswith data AUTEL_MAGIC then Some 4
         else None))"

record aap_msg =
  a_total_len :: nat
  a_msg_id :: string
  a_payload_len :: nat
  a_flags :: nat
  a_cmd1 :: nat
  a_cmd2 :: nat
  a_payload :: "byte list option"
  a_ascii :: "string option"

datatype aap_result = AInvalid | AShort string | AParsed aap_msg

definition aap_parse_fields :: "byte list \<Rightarrow> nat \<Rightarrow> aap_msg" where
  "aap_parse_fields data offset =
     (let total_len = unpack_le (slice data offset (offset + 4));
          msg_id1 = bytes_hex_upper (slice data (offset + 4) (offset + 12));
          payload_len = unpack_le (slice data (offset + 12) (offset + 16));
          flags = unpack_le (slice data (offset + 24) (offset + 28));
          cmd1 = unpack_le (slice data (offset + 28) (offset + 32));
          cmd2 = unpack_le (slice data (offset + 32) (offset + 36));
          has_payload = (length data > offset + 36);
          payload_data = drop (offset + 36) data
      in \<lparr> a_total_len = total_len,
           a_msg_id = msg_id1,
           a_payload_len = payload_len,
           a_flags = flags,
           a_cmd1 = cmd1,
           a_cmd2 = cmd2,
           a_payload = (if has_payload then Some payload_data else None),
           a_ascii = (if has_payload \<and> payload_data \<noteq> [] then ascii_excerpt payload_data else None) \<rparr>)"

definition aap_analyze_autel_packet :: "byte list \<Rightarrow> direction \<Rightarrow> aap_result" where
  "aap_analyze_autel_packet data dir =
     (case aap_magic_offset data dir of
        None \<Rightarrow> AInvalid
      | Some offset \<Rightarrow>
          if length data < offset + 36 then AShort (bytes_hex_upper data)
          else AParsed (aap_parse_fields data offset))"

text \<open>
  \<open>main\<close> of the first analyzer: the frames of subchannel 12 are analyzed, and the loop
  goes on with the results that are valid and not short.
\<close>

definition aap_dlci12_packets :: "rfcomm_packet list \<Rightarrow> rfcomm_packet list" where
  "aap_dlci12_packets rfcomm_packets = filter (\<lambda>p. r_dlci p = 12) rfcomm_packets"

fun aap_analysis_loop :: "rfcomm_packet list \<Rightarrow> (rfcomm_packet \<times> aap_msg) list" where
  "aap_analysis_loop [] = []"
| "aap_analysis_loop (pkt # pkts) =
     (case aap_analyze_autel_packet (r_data pkt) (r_direction pkt) of
        AParsed analysis \<Rightarrow> (pkt, analysis) # aap_analysis_loop pkts
      | _ \<Rightarrow> aap_analysis_loop pkts)"

definition aap_main :: "rfcomm_packet list \<Rightarrow> (rfcomm_packet \<times> aap_msg) list" where
  "aap_main rfcomm_packets = aap_analysis_loop (aap_dlci12_packets rfcomm_packets)"

section \<open>Reading the capture: \<open>parse_btsnoop\<close>\<close>

definition BTSNOOP_MAGIC :: "byte list" where
  "BTSNOOP_MAGIC = [0x62, 0x74, 0x73, 0x6E, 0x6F, 0x6F, 0x70, 0x00]"

datatype error = StructError

text \<open>
  The file is the list of its bytes, and \<open>f.read(n)\<close> takes up to \<open>n\<close> bytes from the
  current position. The \<open>while True\<close> loop is the same in the three parsers: one record is
  the values unpacked with \<open>'>IIIIQ'\<close> from the 24 bytes of \<open>rec_header\<close> and the bytes
  \<open>data\<close>; the argument is what is left of the file. Each parser then builds its own
  dictionary from the record (\<open>packet_num\<close> counts the records appended).
\<close>

record raw_record =
  rr_orig_len :: nat
  rr_incl_len :: nat
  rr_flags :: nat
  rr_drops :: nat
  rr_timestamp :: nat
  rr_data :: "byte list"

definition unpack_rec_header :: "byte list \<Rightarrow> byte list \<Rightarrow> raw_record" where
  "unpack_rec_header rec_header data =
     \<lparr> rr_orig_len = unpack_be (slice rec_header 0 4),
       rr_incl_len = unpack_be (slice rec_header 4 8),
       rr_flags = unpack_be (slice rec_header 8 12),
       rr_drops = unpack_be (slice rec_header 12 16),
       rr_timestamp = unpack_be (slice rec_header 16 24),
       rr_data = data \<rparr>"

function read_records :: "byte list \<Rightarrow> raw_record list" where
  "read_records f =
     (if length (take 24 f) < 24 then []
      else if length (take (unpack_be (slice (take 24 f) 4 8)) (drop 24 f))
              < unpack_be (slice (take 24 f) 4 8) then []
      else unpack_rec_header (take 24 f) (take (unpack_be (slice (take 24 f) 4 8)) (drop 24 f))
           # read_records (drop (unpack_be (slice (take 24 f) 4 8)) (drop 24 f)))"
  by pat_completeness auto
termination
  by (relation "measure length") auto

declare read_records.simps [simp del]

subsection \<open>\<open>parse_btsnoop_v3.py\<close>\<close>

record pb3_packet =
  p3_num :: nat
  p3_timestamp :: nat
  p3_direction :: direction
  p3_type :: pkt_type
  p3_flags :: nat
  p3_data :: "byte list"

definition pb3_packet_of :: "nat \<Rightarrow> raw_record \<Rightarrow> pb3_packet" where
  "pb3_packet_of packet_num r =
     (let flags = rr_flags r;
          direction = (if flags AND 1 \<noteq> 0 then RX else TX);
          is_cmd_event = (flags AND 2 \<noteq> 0);
          pkt_type = (if is_cmd_event then (if flags AND 1 \<noteq> 0 then EVENT else COMMAND) else ACL)
      in \<lparr> p3_num = packet_num, p3_timestamp = rr_timestamp r, p3_direction = direction,
           p3_type = pkt_type, p3_flags = flags, p3_data = rr_data r \<rparr>)"

fun pb3_packets :: "nat \<Rightarrow> raw_record list \<Rightarrow> pb3_packet list" where
  "pb3_packets packet_num [] = []"
| "pb3_packets packet_num (r # rs) =
     pb3_packet_of (packet_num + 1) r # pb3_packets (packet_num + 1) rs"

text \<open>
  The result is \<open>(packets, datalink)\<close>. A file that has the magic and fewer than 16 bytes
  makes \<open>struct.unpack\<close> raise on the header.
\<close>

definition pb3_parse_btsnoop :: "byte list \<Rightarrow> error + (pb3_packet list \<times> nat)" where
  "pb3_parse_btsnoop file =
     (let header = take 16 file
      in if \<not> startswith header BTSNOOP_MAGIC then Inr ([], 0)
         else if length (slice header 8 12) \<noteq> 4 \<or> length (slice header 12 16) \<noteq> 4
              then Inl StructError
         else
           let datalink = unpack_be (slice header 12 16)
           in Inr (pb3_packets 0 (read_records (drop 16 file)), datalink))"

text \<open>\<open>analyze_packets\<close>: the counters and the list \<open>acl_packets\<close>.\<close>

record pb3_stats =
  s3_command :: nat
  s3_event :: nat
  s3_acl :: nat

fun pb3_analyze_loop :: "pb3_packet list \<Rightarrow> pb3_stats \<times> pb3_packet list \<Rightarrow> pb3_stats \<times> pb3_packet list" where
  "pb3_analyze_loop [] st = st"
| "pb3_analyze_loop (pkt # pkts) (stats, acl_packets) =
     (let stats' = (case p3_type pkt of
                      COMMAND \<Rightarrow> stats\<lparr>s3_command := s3_command stats + 1\<rparr>
                    | EVENT \<Rightarrow> stats\<lparr>s3_event := s3_event stats + 1\<rparr>
                    | ACL \<Rightarrow> stats\<lparr>s3_acl := s3_acl stats + 1\<rparr>);
          acl_packets' = (if p3_type pkt = ACL then acl_packets @ [pkt] else acl_packets)
      in pb3_analyze_loop pkts (stats', acl_packets'))"

definition pb3_analyze_packets :: "pb3_packet list \<Rightarrow> pb3_packet list" where
  "pb3_analyze_packets packets =
     snd (pb3_analyze_loop packets (\<lparr>s3_command = 0, s3_event = 0, s3_acl = 0\<rparr>, []))"

text \<open>\<open>extract_acl_data\<close>: the list \<open>data_packets\<close>.\<close>

record pb3_data_packet =
  d_num :: nat
  d_direction :: direction
  d_handle :: nat
  d_cid :: nat
  d_pb_flag :: nat
  d_l2cap_len :: nat
  d_l2cap_data :: "byte list"

definition pb3_acl_of_packet :: "pb3_packet \<Rightarrow> pb3_data_packet option" where
  "pb3_acl_of_packet pkt =
     (let data = p3_data pkt
      in if length data < 4 then None
         else
           let handle_flags = unpack_le (slice data 0 2);
               handle = handle_flags AND 0x0FFF;
               pb_flag = drop_bit 12 handle_flags AND 0x03;
               acl_len = unpack_le (slice data 2 4);
               acl_payload = slice data 4 (4 + acl_len)
           in if length acl_payload \<ge> 4
              then Some \<lparr> d_num = p3_num pkt, d_direction = p3_direction pkt, d_handle = handle,
                          d_cid = unpack_le (slice acl_payload 2 4), d_pb_flag = pb_flag,
                          d_l2cap_len = unpack_le (slice acl_payload 0 2),
                          d_l2cap_data = drop 4 acl_payload \<rparr>
              else None)"

fun pb3_extract_acl_data :: "pb3_packet list \<Rightarrow> pb3_data_packet list" where
  "pb3_extract_acl_data [] = []"
| "pb3_extract_acl_data (pkt # packets) =
     (case pb3_acl_of_packet pkt of
        None \<Rightarrow> pb3_extract_acl_data packets
      | Some d \<Rightarrow> d # pb3_extract_acl_data packets)"

text \<open>\<open>analyze_rfcomm_packets\<close>: the list \<open>rfcomm_data\<close>, of dictionaries with a number.\<close>

record numbered_rfcomm =
  n_num :: nat
  n_direction :: direction
  n_dlci :: nat
  n_data :: "byte list"

definition pb3_rfcomm_of :: "pb3_data_packet \<Rightarrow> numbered_rfcomm option" where
  "pb3_rfcomm_of pkt =
     (let data = d_l2cap_data pkt
      in if length data < 3 then None
         else
           let addr = unat (data ! 0);
               control = unat (data ! 1);
               dlci = drop_bit 2 addr;
               ctrl_type = control AND 0xEF
           in if ctrl_type = 0xEF then
                (case rfcomm_length_field data of
                   None \<Rightarrow> None
                 | Some (payload_len, payload_start) \<Rightarrow>
                     if length data \<ge> payload_start + payload_len then
                       (if payload_len > 0
                        then Some \<lparr> n_num = d_num pkt, n_direction = d_direction pkt, n_dlci = dlci,
                                    n_data = slice data payload_start (payload_start + payload_len) \<rparr>
                        else None)
                     else None)
              else None)"

fun pb3_rfcomm_loop :: "pb3_data_packet list \<Rightarrow> numbered_rfcomm list" where
  "pb3_rfcomm_loop [] = []"
| "pb3_rfcomm_loop (pkt # pkts) =
     (case pb3_rfcomm_of pkt of
        None \<Rightarrow> pb3_rfcomm_loop pkts
      | Some r \<Rightarrow> r # pb3_rfcomm_loop pkts)"

definition pb3_analyze_rfcomm_packets :: "pb3_data_packet list \<Rightarrow> numbered_rfcomm list" where
  "pb3_analyze_rfcomm_packets data_packets =
     (let dynamic_packets = filter (\<lambda>p. d_cid p \<ge> 0x0040) data_packets
      in if dynamic_packets = [] then [] else pb3_rfcomm_loop dynamic_packets)"

subsection \<open>\<open>parse_btsnoop.py\<close>\<close>

record pb_packet =
  p1_num :: nat
  p1_timestamp :: nat
  p1_direction :: direction
  p1_is_command :: bool
  p1_data :: "byte list"
  p1_flags :: nat

definition pb_packet_of :: "nat \<Rightarrow> raw_record \<Rightarrow> pb_packet" where
  "pb_packet_of packet_num r =
     \<lparr> p1_num = packet_num, p1_timestamp = rr_timestamp r,
       p1_direction = (if rr_flags r AND 1 \<noteq> 0 then RX else TX),
       p1_is_command = (rr_flags r AND 2 \<noteq> 0),
       p1_data = rr_data r, p1_flags = rr_flags r \<rparr>"

fun pb_packets :: "nat \<Rightarrow> raw_record list \<Rightarrow> pb_packet list" where
  "pb_packets packet_num [] = []"
| "pb_packets packet_num (r # rs) =
     pb_packet_of (packet_num + 1) r # pb_packets (packet_num + 1) rs"

definition pb_parse_btsnoop :: "byte list \<Rightarrow> error + pb_packet list" where
  "pb_parse_btsnoop file =
     (let header = take 16 file
      in if \<not> startswith header BTSNOOP_MAGIC then Inr []
         else if length (slice header 8 12) \<noteq> 4 \<or> length (slice header 12 16) \<noteq> 4
              then Inl StructError
         else Inr (pb_packets 0 (read_records (drop 16 file))))"

definition HCI_COMMAND :: nat where "HCI_COMMAND = 0x01"
definition HCI_ACL_DATA :: nat where "HCI_ACL_DATA = 0x02"
definition HCI_SCO_DATA :: nat where "HCI_SCO_DATA = 0x03"
definition HCI_EVENT :: nat where "HCI_EVENT = 0x04"

text \<open>\<open>extract_l2cap_data\<close>: the first byte of the record is the packet type.\<close>

record pb_l2cap =
  l_num :: nat
  l_direction :: direction
  l_handle :: nat
  l_cid :: nat
  l_payload :: "byte list"

definition pb_l2cap_of_packet :: "pb_packet \<Rightarrow> pb_l2cap option" where
  "pb_l2cap_of_packet pkt =
     (let data = p1_data pkt
      in if length data < 1 then None
         else
           let pkt_type = unat (data ! 0)
           in if pkt_type = HCI_ACL_DATA \<and> length data > 5 then
                (let handle = unpack_le (slice data 1 3) AND 0x0FFF;
                     acl_len = unpack_le (slice data 3 5)
                 in if length data \<ge> 5 + acl_len \<and> acl_len \<ge> 4 then
                      (let l2cap_payload = slice data 5 (5 + acl_len);
                           l2cap_len = unpack_le (slice l2cap_payload 0 2);
                           l2cap_cid = unpack_le (slice l2cap_payload 2 4)
                       in if length l2cap_payload \<ge> 4 + l2cap_len
                          then Some \<lparr> l_num = p1_num pkt, l_direction = p1_direction pkt,
                                      l_handle = handle, l_cid = l2cap_cid,
                                      l_payload = slice l2cap_payload 4 (4 + l2cap_len) \<rparr>
                          else None)
                    else None)
              else None)"

fun pb_extract_l2cap_data :: "pb_packet list \<Rightarrow> pb_l2cap list" where
  "pb_extract_l2cap_data [] = []"
| "pb_extract_l2cap_data (pkt # packets) =
     (case pb_l2cap_of_packet pkt of
        None \<Rightarrow> pb_extract_l2cap_data packets
      | Some l \<Rightarrow> l # pb_extract_l2cap_data packets)"

text \<open>\<open>extract_rfcomm_data\<close> of \<open>parse_btsnoop.py\<close>: it skips the channels up to 3.\<close>

definition pb_rfcomm_of :: "pb_l2cap \<Rightarrow> numbered_rfcomm option" where
  "pb_rfcomm_of pkt =
     (let payload = l_payload pkt; cid = l_cid pkt
      in if cid \<le> 0x0003 then None
         else if length payload < 3 then None
         else
           let addr = unat (payload ! 0);
               control = unat (payload ! 1)
           in if control AND 0xEF = 0xEF then
                (case rfcomm_length_field payload of
                   None \<Rightarrow> None
                 | Some (data_len, data_start) \<Rightarrow>
                     if length payload \<ge> data_start + data_len then
                       (if data_len > 0
                        then Some \<lparr> n_num = l_num pkt, n_direction = l_direction pkt,
                                    n_dlci = drop_bit 2 addr,
                                    n_data = slice payload data_start (data_start + data_len) \<rparr>
                        else None)
                     else None)
              else None)"

fun pb_extract_rfcomm_data :: "pb_l2cap list \<Rightarrow> numbered_rfcomm list" where
  "pb_extract_rfcomm_data [] = []"
| "pb_extract_rfcomm_data (pkt # l2cap_packets) =
     (case pb_rfcomm_of pkt of
        None \<Rightarrow> pb_extract_rfcomm_data l2cap_packets
      | Some r \<Rightarrow> r # pb_extract_rfcomm_data l2cap_packets)"

subsection \<open>\<open>parse_btsnoop_v2.py\<close>\<close>

record pb2_packet =
  p2_num :: nat
  p2_timestamp :: nat
  p2_direction :: direction
  p2_flags :: nat
  p2_data :: "byte list"

definition pb2_packet_of :: "nat \<Rightarrow> raw_record \<Rightarrow> pb2_packet" where
  "pb2_packet_of packet_num r =
     \<lparr> p2_num = packet_num, p2_timestamp = rr_timestamp r,
       p2_direction = (if rr_flags r AND 1 \<noteq> 0 then RX else TX),
       p2_flags = rr_flags r, p2_data = rr_data r \<rparr>"

fun pb2_packets :: "nat \<Rightarrow> raw_record list \<Rightarrow> pb2_packet list" where
  "pb2_packets packet_num [] = []"
| "pb2_packets packet_num (r # rs) =
     pb2_packet_of (packet_num + 1) r # pb2_packets (packet_num + 1) rs"

definition pb2_parse_btsnoop :: "byte list \<Rightarrow> error + pb2_packet list" where
  "pb2_parse_btsnoop file =
     (let header = take 16 file
      in if \<not> startswith header BTSNOOP_MAGIC then Inr []
         else if length (slice header 8 12) \<noteq> 4 \<or> length (slice header 12 16) \<noteq> 4
              then Inl StructError
         else Inr (pb2_packets 0 (read_records (drop 16 file))))"

text \<open>\<open>analyze_packets\<close>: the kind of a record is its first byte.\<close>

datatype pb2_kind = Commands | Events | Acl | Sco | Other

definition pb2_kind_of :: "pb2_packet \<Rightarrow> pb2_kind option" where
  "pb2_kind_of pkt =
     (let data = p2_data pkt
      in if length data < 1 then None
         else
           let pkt_type = unat (data ! 0)
           in if pkt_type = HCI_COMMAND then Some Commands
              else if pkt_type = HCI_EVENT then Some Events
              else if pkt_type = HCI_ACL_DATA then Some Acl
              else if pkt_type = HCI_SCO_DATA then Some Sco
              else Some Other)"

fun pb2_analyze_loop :: "pb2_packet list \<Rightarrow> (pb2_kind \<Rightarrow> nat) \<times> pb2_packet list
    \<Rightarrow> (pb2_kind \<Rightarrow> nat) \<times> pb2_packet list" where
  "pb2_analyze_loop [] st = st"
| "pb2_analyze_loop (pkt # pkts) (stats, acl_packets) =
     (case pb2_kind_of pkt of
        None \<Rightarrow> pb2_analyze_loop pkts (stats, acl_packets)
      | Some k \<Rightarrow>
          pb2_analyze_loop pkts
            (stats(k := stats k + 1), if k = Acl then acl_packets @ [pkt] else acl_packets))"

definition pb2_analyze_packets :: "pb2_packet list \<Rightarrow> pb2_packet list" where
  "pb2_analyze_packets packets = snd (pb2_analyze_loop packets (\<lambda>k. 0, []))"

subsection \<open>The analyzers\<close>

text \<open>
  \<open>parse_btsnoop\<close> of \<open>analyze_autel_protocol.py\<close> and of
  \<open>analyze_autel_protocol_v2.py\<close>: the header is not unpacked, a file without the magic
  gives the empty list, and each record gives a dictionary whose type comes from the
  flags.
\<close>

definition aap_packet_of :: "raw_record \<Rightarrow> aap_packet" where
  "aap_packet_of r =
     (let flags = rr_flags r;
          direction = (if flags AND 1 \<noteq> 0 then RX else TX);
          is_cmd_event = (flags AND 2 \<noteq> 0);
          pkt_type = (if is_cmd_event \<and> flags AND 1 \<noteq> 0 then EVENT
                      else if is_cmd_event then COMMAND else ACL)
      in \<lparr> p_timestamp = rr_timestamp r, p_direction = direction, p_type = pkt_type,
           p_data = rr_data r \<rparr>)"

definition aap_parse_btsnoop :: "byte list \<Rightarrow> aap_packet list" where
  "aap_parse_btsnoop file =
     (let header = take 16 file
      in if \<not> startswith header BTSNOOP_MAGIC then []
         else map aap_packet_of (read_records (drop 16 file)))"

definition aap2_packet_of :: "raw_record \<Rightarrow> aap_packet" where
  "aap2_packet_of r =
     (let flags = rr_flags r;
          direction = (if flags AND 1 \<noteq> 0 then RX else TX);
          pkt_type = (if flags AND 2 \<noteq> 0 \<and> flags AND 1 \<noteq> 0 then EVENT
                      else if flags AND 2 \<noteq> 0 then COMMAND else ACL)
      in \<lparr> p_timestamp = rr_timestamp r, p_direction = direction, p_type = pkt_type,
           p_data = rr_data r \<rparr>)"

definition aap2_parse_btsnoop :: "byte list \<Rightarrow> aap_packet list" where
  "aap2_parse_btsnoop file =
     (let header = take 16 file
      in if \<not> startswith header BTSNOOP_MAGIC then []
         else map aap2_packet_of (read_records (drop 16 file)))"

section \<open>Example frames\<close>

text \<open>
  A sent message: the magic, \<open>total_len = 41\<close>, seven header words that are zero (so the
  payload length field is 0), the five payload bytes \<open>J2534\<close> and a check value.
\<close>

definition sent_j2534_frame :: "byte list" where
  "sent_j2534_frame =
     [0x55, 0x55, 0xAA, 0xAA, 41, 0, 0, 0, 0, 0, 0, 0, 0, 0, 0, 0, 0, 0, 0, 0,
      0, 0, 0, 0, 0, 0, 0, 0, 0, 0, 0, 0, 0, 0, 0, 0,
      0x4A, 0x32, 0x35, 0x33, 0x34, 1, 2, 3, 4]"

text \<open>A header-only message (\<open>total_len = 36\<close>) followed by four more bytes.\<close>

definition header_only_frame :: "byte list" where
  "header_only_frame =
     [0x55, 0x55, 0xAA, 0xAA, 36, 0, 0, 0, 0, 0, 0, 0, 0, 0, 0, 0, 0, 0, 0, 0,
      0, 0, 0, 0, 0, 0, 0, 0, 0, 0, 0, 0, 0, 0, 0, 0,
      0xDE, 0xAD, 0xBE, 0xEF, 9, 9, 9, 9]"

text \<open>
  An information frame on subchannel 12 with a one-byte length field (3 bytes of payload
  and a check byte), and the same payload with a two-byte length field.
\<close>

definition uih_frame_1 :: "byte list" where
  "uih_frame_1 = [0x31, 0xEF, 0x07, 0xAA, 0xBB, 0xCC, 0x9A]"

definition uih_frame_2 :: "byte list" where
  "uih_frame_2 = [0x31, 0xEF, 0x06, 0x00, 0xAA, 0xBB, 0xCC, 0x9A]"

definition uih_data_packet :: "byte list \<Rightarrow> pb3_data_packet" where
  "uih_data_packet d =
     \<lparr> d_num = 1, d_direction = TX, d_handle = 1, d_cid = 0x40, d_pb_flag = 2,
       d_l2cap_len = length d, d_l2cap_data = d \<rparr>"

text \<open>
  Capture records of the data kind, as the analyzers read them (flags-only mode: the record
  starts with the handle): a segment of 11 bytes with an inner frame of declared length 7
  on the channel given, carrying \<open>uih_frame_1\<close>; and a segment of 8 bytes whose inner frame
  declares 16 bytes while only 4 follow the channel identifier. With the byte 2 in front
  they are records as \<open>parse_btsnoop.py\<close> reads them.
\<close>

definition l2cap_record :: "byte \<Rightarrow> byte list" where
  "l2cap_record cid = [0x01, 0x00, 0x0B, 0x00, 0x07, 0x00, cid, 0x00] @ uih_frame_1"

definition inner_len_16_record :: "byte list" where
  "inner_len_16_record =
     [0x01, 0x00, 0x08, 0x00, 0x10, 0x00, 0x40, 0x00, 0x31, 0xEF, 0x03, 0xAA]"

definition aap_acl_packet :: "byte list \<Rightarrow> aap_packet" where
  "aap_acl_packet data = \<lparr> p_timestamp = 7, p_direction = TX, p_type = ACL, p_data = data \<rparr>"

definition pb_data_packet :: "byte list \<Rightarrow> pb_packet" where
  "pb_data_packet data =
     \<lparr> p1_num = 1, p1_timestamp = 7, p1_direction = TX, p1_is_command = False,
       p1_data = data, p1_flags = 0 \<rparr>"

text \<open>Subchannel frames that carry the sent message, on subchannel 12 and on subchannel 5.\<close>

definition vendor_rfcomm :: "nat \<Rightarrow> rfcomm_packet" where
  "vendor_rfcomm dlci =
     \<lparr> r_timestamp = 7, r_direction = TX, r_dlci = dlci, r_data = sent_j2534_frame \<rparr>"

text \<open>
  A capture header with version 1 and the link-type \<open>0x0300 + lt\<close> (1001 is \<open>0x03E9\<close>),
  and a record of 3 bytes with all flags zero and time stamp 7, whose first byte is 4.
\<close>

definition capture_header :: "byte \<Rightarrow> byte list" where
  "capture_header lt = BTSNOOP_MAGIC @ [0, 0, 0, 1, 0, 0, 0x03, lt]"

definition event_rec_header :: "byte list" where
  "event_rec_header =
     [0, 0, 0, 3, 0, 0, 0, 3, 0, 0, 0, 0, 0, 0, 0, 0, 0, 0, 0, 0, 0, 0, 0, 7]"

definition event_rec_body :: "byte list" where
  "event_rec_body = [0x04, 0x0E, 0x00]"

section \<open>Basic facts\<close>

lemma length_slice: "b \<le> length xs \<Longrightarrow> length (slice xs a b) = b - a"
  by (simp add: slice_def)



section \<open>The vendor message parser\<close>

lemma aap2_magic_offset_cases:
  "aap2_magic_offset data dir = Some offset \<Longrightarrow> offset = 0 \<or> offset = 1"
  by (auto simp: aap2_magic_offset_def split: if_splits)

lemma aap2_parsed_iff:
  "aap2_parse_autel_packet data dir = Parsed m \<longleftrightarrow>
     (\<exists>offset. aap2_magic_offset data dir = Some offset \<and> offset + 40 \<le> length data
        \<and> m = aap2_parse_fields data dir offset)"
  by (auto simp: aap2_parse_autel_packet_def split: option.splits)



lemma sent_j2534_parsed:
  "aap2_parse_autel_packet sent_j2534_frame TX = Parsed (aap2_parse_fields sent_j2534_frame TX 0)"
  by (simp add: aap2_parse_autel_packet_def aap2_magic_offset_def startswith_def AUTEL_MAGIC_def
      sent_j2534_frame_def)

lemma header_only_parsed:
  "aap2_parse_autel_packet header_only_frame TX = Parsed (aap2_parse_fields header_only_frame TX 0)"
  by (simp add: aap2_parse_autel_packet_def aap2_magic_offset_def startswith_def AUTEL_MAGIC_def
      header_only_frame_def)



text \<open>
  C10. A parsed vendor message whose \<open>total_len\<close> is at most 36 (the payload interval is
  empty: its end is not after its start) has no payload, no check value and no ASCII
  excerpt, whatever bytes follow the header.
\<close>

theorem C10_header_only_message:
  assumes "aap2_parse_autel_packet data dir = Parsed m" and "m_total_len m \<le> 36"
  shows "m_payload m = None \<and> m_payload_hex m = None \<and> m_crc m = None \<and> m_ascii m = None"
  using assms by (auto simp: aap2_parsed_iff aap2_parse_fields_def Let_def)

theorem C10_header_only_message_witness:
  "aap2_parse_autel_packet header_only_frame TX = Parsed (aap2_parse_fields header_only_frame TX 0) \<and>
   m_total_len (aap2_parse_fields header_only_frame TX 0) = 36 \<and>
   length header_only_frame = 44 \<and>
   m_payload (aap2_parse_fields header_only_frame TX 0) = None \<and>
   m_crc (aap2_parse_fields header_only_frame TX 0) = None \<and>
   m_ascii (aap2_parse_fields header_only_frame TX 0) = None"
proof -
  have tl: "m_total_len (aap2_parse_fields header_only_frame TX 0) = 36"
    by (simp add: aap2_parse_fields_def slice_def header_only_frame_def Let_def)
  have len: "length header_only_frame = 44"
    by (simp add: header_only_frame_def)
  from C10_header_only_message [OF header_only_parsed] tl len header_only_parsed
  show ?thesis
    by simp
qed

lemma length_AUTEL_MAGIC [simp]: "length AUTEL_MAGIC = 4"
  by (simp add: AUTEL_MAGIC_def)

lemma take5_zero_magic:
  "(slice data 0 1 = [0] \<and> slice data 1 5 = AUTEL_MAGIC) = startswith data (0 # AUTEL_MAGIC)"
  by (cases data) (auto simp: slice_def startswith_def)

lemma aap_magic_offset_RX:
  "aap_magic_offset data RX =
     (if length data < 5 then None
      else if startswith data (0 # AUTEL_MAGIC) then Some 5
      else if startswith data AUTEL_MAGIC then Some 4
      else None)"
  using take5_zero_magic [of data] by (auto simp: aap_magic_offset_def)

lemma startswith_magic_slice: "startswith data AUTEL_MAGIC \<Longrightarrow> slice data 0 4 = AUTEL_MAGIC"
  by (simp add: startswith_def slice_def)

lemma startswith_zero_magic_slice:
  "startswith data (0 # AUTEL_MAGIC) \<Longrightarrow> slice data 1 5 = AUTEL_MAGIC"
  using take5_zero_magic [of data] by simp

text \<open>
  C2 (as amended). The offset of the magic depends on the direction. In
  \<open>parse_autel_packet\<close> a sent frame is a vendor message only with the magic at offset 0;
  a received frame with one zero byte and then the magic (offset 1, tried first), or with
  the magic at offset 0; the resolved offset is 0 or 1 and the magic is the 4 bytes at
  that offset; the result is the invalid one exactly when neither form matches. In
  \<open>analyze_autel_packet\<close> of the first analyzer the resolved offset is 4 or 5 and points
  behind the magic, which is the 4 bytes in front of it, and a received frame of fewer
  than 5 bytes is invalid.
\<close>

theorem C2_magic_offset:
  "aap2_magic_offset data TX = (if startswith data AUTEL_MAGIC then Some 0 else None) \<and>
   aap2_magic_offset data RX =
     (if startswith data (0 # AUTEL_MAGIC) then Some 1
      else if startswith data AUTEL_MAGIC then Some 0 else None) \<and>
   (\<forall>offset. aap2_magic_offset data dir = Some offset \<longrightarrow>
      offset \<in> {0, 1} \<and> slice data offset (offset + 4) = AUTEL_MAGIC) \<and>
   (aap2_parse_autel_packet data dir = Invalid dir \<longleftrightarrow> aap2_magic_offset data dir = None) \<and>
   aap_magic_offset data TX = (if startswith data AUTEL_MAGIC then Some 4 else None) \<and>
   aap_magic_offset data RX =
     (if length data < 5 then None
      else if startswith data (0 # AUTEL_MAGIC) then Some 5
      else if startswith data AUTEL_MAGIC then Some 4 else None) \<and>
   (\<forall>offset. aap_magic_offset data dir = Some offset \<longrightarrow>
      offset \<in> {4, 5} \<and> slice data (offset - 4) offset = AUTEL_MAGIC) \<and>
   (aap_analyze_autel_packet data dir = AInvalid \<longleftrightarrow> aap_magic_offset data dir = None)"
proof -
  note m0 = startswith_magic_slice [of data] and m1 = startswith_zero_magic_slice [of data]
  have a: "aap2_magic_offset data TX = (if startswith data AUTEL_MAGIC then Some 0 else None)"
    by (simp add: aap2_magic_offset_def)
  have b: "aap2_magic_offset data RX =
     (if startswith data (0 # AUTEL_MAGIC) then Some 1
      else if startswith data AUTEL_MAGIC then Some 0 else None)"
    by (simp add: aap2_magic_offset_def)
  have c: "\<forall>offset. aap2_magic_offset data dir = Some offset \<longrightarrow>
      offset \<in> {0, 1} \<and> slice data offset (offset + 4) = AUTEL_MAGIC"
    using m0 m1 by (auto simp: aap2_magic_offset_def split: if_splits)
  have d: "aap2_parse_autel_packet data dir = Invalid dir \<longleftrightarrow> aap2_magic_offset data dir = None"
    by (auto simp: aap2_parse_autel_packet_def split: option.splits)
  have e: "aap_magic_offset data TX = (if startswith data AUTEL_MAGIC then Some 4 else None)"
    by (simp add: aap_magic_offset_def)
  have g: "\<forall>offset. aap_magic_offset data dir = Some offset \<longrightarrow>
      offset \<in> {4, 5} \<and> slice data (offset - 4) offset = AUTEL_MAGIC"
    using m0 by (auto simp: aap_magic_offset_def split: if_splits)
  have h: "aap_analyze_autel_packet data dir = AInvalid \<longleftrightarrow> aap_magic_offset data dir = None"
    by (auto simp: aap_analyze_autel_packet_def split: option.splits)
  from a b c d e aap_magic_offset_RX g h show ?thesis
    by blast
qed

theorem C2_magic_offset_witness:
  "aap2_magic_offset (0 # sent_j2534_frame) RX = Some 1 \<and>
   slice (0 # sent_j2534_frame) 1 5 = AUTEL_MAGIC \<and>
   aap_magic_offset (0 # sent_j2534_frame) RX = Some 5"
proof -
  have sw: "startswith (0 # sent_j2534_frame) (0 # AUTEL_MAGIC)"
    by (simp add: startswith_def AUTEL_MAGIC_def sent_j2534_frame_def)
  have len: "length (0 # sent_j2534_frame) = 46"
    by (simp add: sent_j2534_frame_def)
  from C2_magic_offset [of "0 # sent_j2534_frame" RX] sw len show ?thesis
    by auto
qed

text \<open>
  The claim as it stands fails on the first analyzer: for a sent frame with the magic at
  its start the offset is 4, and the bytes at 4 to 8 are the length, not the magic; and a
  received frame that is just the magic is invalid although the magic is at offset 0.
\<close>

theorem C2_counterexample:
  "aap_magic_offset sent_j2534_frame TX = Some 4 \<and>
   aap_analyze_autel_packet sent_j2534_frame TX = AParsed (aap_parse_fields sent_j2534_frame 4) \<and>
   slice sent_j2534_frame 4 8 = [41, 0, 0, 0] \<and>
   slice sent_j2534_frame 4 8 \<noteq> AUTEL_MAGIC \<and>
   startswith AUTEL_MAGIC AUTEL_MAGIC \<and>
   aap_analyze_autel_packet AUTEL_MAGIC RX = AInvalid"
  by (simp add: aap_magic_offset_def aap_analyze_autel_packet_def startswith_def slice_def
      AUTEL_MAGIC_def sent_j2534_frame_def)

section \<open>Classification\<close>

lemma slice0: "slice p 0 n = take n p"
  by (simp add: slice_def)

lemma startswith_Nil [simp]: "startswith [] (x # xs) = False"
  by (simp add: startswith_def)

lemma first_match_Cons [simp]:
  "first_match ((c, t) # rules) dflt = (if c then t else first_match rules dflt)"
  by (simp add: first_match_def)

lemma first_match_Nil [simp]: "first_match [] dflt = dflt"
  by (simp add: first_match_def)

lemma identify_eq_chain: "identify_message_type m dir = rule_chain_tag m dir"
proof -
  have A: "m_ascii m = None \<or> m_ascii m = Some [] \<or> (\<exists>a. m_ascii m = Some a \<and> a \<noteq> [])"
    by (cases "m_ascii m") auto
  have P: "m_payload m = None \<or> m_payload m = Some [] \<or> (\<exists>p. m_payload m = Some p \<and> p \<noteq> [])"
    by (cases "m_payload m") auto
  from A P show ?thesis
    by (elim disjE exE conjE; cases dir;
        simp add: identify_message_type_def rule_chain_tag_def ascii_rules_def
          payload_rules_def direction_rules_def default_tag_def slice0 Let_def
          split del: if_split cong del: if_weak_cong)
qed

lemma identify_nonempty: "identify_message_type m dir \<noteq> []"
  by (simp add: identify_message_type_def Let_def)

lemma j2534_excerpt: "ascii_excerpt [0x4A, 0x32, 0x35, 0x33, 0x34] = Some ''J2534''"
  by code_simp

text \<open>
  C8. The tag of a parsed message is the tag of the first rule that matches in the chain
  of the rules on the ASCII excerpt, then the rules on the first bytes of the payload, then
  the rules on \<open>(status, reserved)\<close> for the direction (for a received message,
  \<open>status = 0\<close> gives \<open>SUCCESS_RESPONSE\<close>); when no rule matches it is the tag built
  from \<open>(status, reserved)\<close>. It is never empty.
\<close>

theorem C8_rule_chain:
  "identify_message_type m dir = rule_chain_tag m dir \<and> identify_message_type m dir \<noteq> []"
  using identify_eq_chain identify_nonempty by blast

theorem C8_rule_chain_witness:
  "identify_message_type (aap2_parse_fields sent_j2534_frame TX 0) TX = ''DEVICE_ID_REQUEST'' \<and>
   identify_message_type (aap2_parse_fields header_only_frame TX 0) RX = ''SUCCESS_RESPONSE''"
proof -
  have asc: "m_ascii (aap2_parse_fields sent_j2534_frame TX 0) = Some ''J2534''"
    by (simp add: aap2_parse_fields_def slice_def sent_j2534_frame_def Let_def j2534_excerpt)
  have t1: "rule_chain_tag (aap2_parse_fields sent_j2534_frame TX 0) TX = ''DEVICE_ID_REQUEST''"
    by (simp add: rule_chain_tag_def ascii_rules_def asc startswith_def)
  have hdr: "m_ascii (aap2_parse_fields header_only_frame TX 0) = None"
    "m_payload (aap2_parse_fields header_only_frame TX 0) = None"
    "m_status (aap2_parse_fields header_only_frame TX 0) = 0"
    by (simp_all add: aap2_parse_fields_def slice_def header_only_frame_def Let_def)
  have t2: "rule_chain_tag (aap2_parse_fields header_only_frame TX 0) RX = ''SUCCESS_RESPONSE''"
    by (simp add: rule_chain_tag_def ascii_rules_def payload_rules_def direction_rules_def hdr)
  from C8_rule_chain [of "aap2_parse_fields sent_j2534_frame TX 0" TX]
    C8_rule_chain [of "aap2_parse_fields header_only_frame TX 0" RX] t1 t2
  show ?thesis
    by simp
qed

section \<open>Subchannel frames\<close>

text \<open>
  C3. For an information frame (at least 3 bytes, control byte \<open>0xEF\<close> under the mask
  \<open>0xEF\<close>): when the low bit of the byte at offset 2 is set, the payload length is that
  byte shifted right by one and the payload starts at offset 3; otherwise a fourth byte
  must be there, the length is \<open>(byte0 >> 1) | (byte1 << 7)\<close> and the payload starts at
  offset 4. The frame gives a payload, of exactly that length, unless the length is zero or
  more than the bytes left after the start. This is what \<open>extract_rfcomm_data\<close> of the
  second analyzer and \<open>analyze_rfcomm_packets\<close> of the third parser do.
\<close>

theorem C3_length_field:
  assumes "3 \<le> length d" and "unat (d ! 1) AND 0xEF = 0xEF"
  shows
    "let length_byte = unat (d ! 2);
         one_byte = (length_byte AND 1 \<noteq> 0);
         payload_len = (if one_byte then drop_bit 1 length_byte
                        else drop_bit 1 length_byte OR push_bit 7 (unat (d ! 3)));
         payload_start = (if one_byte then 3 else 4);
         emitted = ((one_byte \<or> 4 \<le> length d) \<and> payload_len \<noteq> 0 \<and>
                    payload_len \<le> length d - payload_start);
         payload = slice d payload_start (payload_start + payload_len)
     in (one_byte \<or> 4 \<le> length d \<longrightarrow> rfcomm_length_field d = Some (payload_len, payload_start)) \<and>
        (\<not> one_byte \<and> length d < 4 \<longrightarrow> rfcomm_length_field d = None) \<and>
        (0x40 \<le> cid \<longrightarrow>
           aap2_uih_frame cid d = (if emitted then Some (drop_bit 2 (unat (d ! 0)), payload) else None)) \<and>
        (d_l2cap_data pkt = d \<longrightarrow>
           pb3_rfcomm_of pkt =
             (if emitted then Some \<lparr> n_num = d_num pkt, n_direction = d_direction pkt,
                                      n_dlci = drop_bit 2 (unat (d ! 0)), n_data = payload \<rparr>
              else None)) \<and>
        (emitted \<longrightarrow> length payload = payload_len)"
  using assms
  by (auto simp: Let_def rfcomm_length_field_def aap2_uih_frame_def pb3_rfcomm_of_def slice_def)

theorem C3_length_field_witness:
  "rfcomm_length_field uih_frame_1 = Some (3, 3) \<and>
   aap2_uih_frame 0x40 uih_frame_1 = Some (12, [0xAA, 0xBB, 0xCC]) \<and>
   rfcomm_length_field uih_frame_2 = Some (3, 4) \<and>
   aap2_uih_frame 0x40 uih_frame_2 = Some (12, [0xAA, 0xBB, 0xCC]) \<and>
   pb3_rfcomm_of (uih_data_packet uih_frame_2) =
     Some \<lparr> n_num = 1, n_direction = TX, n_dlci = 12, n_data = [0xAA, 0xBB, 0xCC] \<rparr>"
proof -
  have h1: "3 \<le> length uih_frame_1" "unat (uih_frame_1 ! 1) AND 0xEF = 0xEF"
    by (simp_all add: uih_frame_1_def)
  have h2: "3 \<le> length uih_frame_2" "unat (uih_frame_2 ! 1) AND 0xEF = 0xEF"
    by (simp_all add: uih_frame_2_def)
  have d2: "d_l2cap_data (uih_data_packet uih_frame_2) = uih_frame_2"
    "d_num (uih_data_packet uih_frame_2) = 1" "d_direction (uih_data_packet uih_frame_2) = TX"
    by (simp_all add: uih_data_packet_def)
  have e1: "unat (uih_frame_1 ! 0) = 0x31" "unat (uih_frame_1 ! 2) = 7" "length uih_frame_1 = 7"
    "slice uih_frame_1 3 6 = [0xAA, 0xBB, 0xCC]"
    by (simp_all add: uih_frame_1_def slice_def)
  have e2: "unat (uih_frame_2 ! 0) = 0x31" "unat (uih_frame_2 ! 2) = 6" "unat (uih_frame_2 ! 3) = 0"
    "length uih_frame_2 = 8" "slice uih_frame_2 4 7 = [0xAA, 0xBB, 0xCC]"
    by (simp_all add: uih_frame_2_def slice_def)
  from C3_length_field [OF h1, of "0x40" "uih_data_packet uih_frame_1"]
    C3_length_field [OF h2, of "0x40" "uih_data_packet uih_frame_2"]
  show ?thesis
    by (simp add: Let_def d2 e1 e2)
qed

section \<open>Channel frames\<close>

lemma slice_slice: "a + d \<le> b \<Longrightarrow> slice (slice xs a b) c d = slice xs (a + c) (a + d)"
  by (simp add: slice_def drop_take add.commute)

lemma pb_l2cap_of_packet_Some:
  assumes "pb_l2cap_of_packet pkt = Some l"
  shows "unat (p1_data pkt ! 0) = 2 \<and>
         l_cid l = unpack_le (slice (p1_data pkt) 7 9) \<and>
         l_payload l = slice (p1_data pkt) 9 (9 + unpack_le (slice (p1_data pkt) 5 7)) \<and>
         length (l_payload l) = unpack_le (slice (p1_data pkt) 5 7) \<and>
         4 + unpack_le (slice (p1_data pkt) 5 7) \<le> unpack_le (slice (p1_data pkt) 3 5)"
proof -
  define data where "data = p1_data pkt"
  define acl_len where "acl_len = unpack_le (slice data 3 5)"
  define inner where "inner = slice data 5 (5 + acl_len)"
  from assms have t: "unat (data ! 0) = 2" and len: "5 + acl_len \<le> length data" "4 \<le> acl_len"
    and fit: "4 + unpack_le (slice inner 0 2) \<le> length inner"
    and l: "l = \<lparr> l_num = p1_num pkt, l_direction = p1_direction pkt,
                   l_handle = unpack_le (slice data 1 3) AND 0x0FFF,
                   l_cid = unpack_le (slice inner 2 4),
                   l_payload = slice inner 4 (4 + unpack_le (slice inner 0 2)) \<rparr>"
    by (auto simp: pb_l2cap_of_packet_def Let_def HCI_ACL_DATA_def data_def acl_len_def inner_def
        split: if_splits)
  have li: "length inner = acl_len"
    using len by (simp add: inner_def slice_def)
  have s1: "slice inner 0 2 = slice data 5 7" and s2: "slice inner 2 4 = slice data 7 9"
    using len by (simp_all add: inner_def slice_slice)
  have s3: "slice inner 4 (4 + n) = slice data 9 (9 + n)" if "4 + n \<le> acl_len" for n
    using that by (simp add: inner_def slice_slice)
  have "length (slice data 9 (9 + unpack_le (slice data 5 7))) = unpack_le (slice data 5 7)"
    using fit len li s1 by (simp add: slice_def)
  with t l fit li s1 s2 s3 show ?thesis
    by (simp add: data_def [symmetric] acl_len_def [symmetric])
qed

lemma pb_l2cap_of_packet_short:
  "unpack_le (slice (p1_data pkt) 3 5) < 4 + unpack_le (slice (p1_data pkt) 5 7) \<Longrightarrow>
   pb_l2cap_of_packet pkt = None"
  using pb_l2cap_of_packet_Some [of pkt] by (cases "pb_l2cap_of_packet pkt") auto

lemma aap2_l2cap_frame_Some:
  assumes "aap2_l2cap_frame data = Some (cid, d)"
  shows "cid = unpack_le (slice data 6 8) \<and> d = slice data 8 (4 + unpack_le (slice data 2 4))"
proof -
  define acl_len where "acl_len = unpack_le (slice data 2 4)"
  from assms have len: "4 + acl_len \<le> length data" and four: "4 \<le> acl_len"
    and cid: "cid = unpack_le (slice (slice data 4 (4 + acl_len)) 2 4)"
    and d: "d = drop 4 (slice data 4 (4 + acl_len))"
    by (auto simp: aap2_l2cap_frame_def Let_def acl_len_def slice_def split: if_splits)
  have "slice (slice data 4 (4 + acl_len)) 2 4 = slice data 6 8"
    using four by (simp add: slice_slice)
  moreover have "drop 4 (slice data 4 (4 + acl_len)) = slice data 8 (4 + acl_len)"
    by (simp add: slice_def drop_take add.commute)
  ultimately show ?thesis
    using cid d by (simp add: acl_len_def)
qed

lemma aap2_l2cap_frame_None:
  "aap2_l2cap_frame data = None \<longleftrightarrow>
     length data < 8 \<or> length data < 4 + unpack_le (slice data 2 4) \<or> unpack_le (slice data 2 4) < 4"
  by (auto simp: aap2_l2cap_frame_def Let_def slice_def)

lemma pb_l2cap_of_packet_eq:
  "pb_l2cap_of_packet pkt =
     (let data = p1_data pkt;
          acl_len = unpack_le (slice data 3 5);
          l2cap_len = unpack_le (slice data 5 7)
      in if data \<noteq> [] \<and> unat (data ! 0) = 2 \<and> 5 + acl_len \<le> length data \<and>
            4 + l2cap_len \<le> acl_len
         then Some \<lparr> l_num = p1_num pkt, l_direction = p1_direction pkt,
                     l_handle = unpack_le (slice data 1 3) AND 0x0FFF,
                     l_cid = unpack_le (slice data 7 9),
                     l_payload = slice data 9 (9 + l2cap_len) \<rparr>
         else None)"
proof -
  define data where "data = p1_data pkt"
  define acl_len where "acl_len = unpack_le (slice data 3 5)"
  define inner where "inner = slice data 5 (5 + acl_len)"
  show ?thesis
  proof (cases "data \<noteq> [] \<and> unat (data ! 0) = 2 \<and> 5 + acl_len \<le> length data \<and> 4 \<le> acl_len")
    case True
    then have len: "5 + acl_len \<le> length data" "4 \<le> acl_len" by auto
    have li: "length inner = acl_len"
      using len by (simp add: inner_def slice_def)
    have s1: "slice inner 0 2 = slice data 5 7" and s2: "slice inner 2 4 = slice data 7 9"
      using len by (simp_all add: inner_def slice_slice)
    have s3: "slice inner 4 (4 + n) = slice data 9 (9 + n)" if "4 + n \<le> acl_len" for n
      using that by (simp add: inner_def slice_slice)
    have "pb_l2cap_of_packet pkt =
        (if 4 + unpack_le (slice inner 0 2) \<le> length inner
         then Some \<lparr> l_num = p1_num pkt, l_direction = p1_direction pkt,
                     l_handle = unpack_le (slice data 1 3) AND 0x0FFF,
                     l_cid = unpack_le (slice inner 2 4),
                     l_payload = slice inner 4 (4 + unpack_le (slice inner 0 2)) \<rparr>
         else None)"
      using True
      by (simp add: pb_l2cap_of_packet_def Let_def HCI_ACL_DATA_def data_def [symmetric]
          acl_len_def [symmetric] inner_def [symmetric])
    also have "\<dots> =
        (if 4 + unpack_le (slice data 5 7) \<le> acl_len
         then Some \<lparr> l_num = p1_num pkt, l_direction = p1_direction pkt,
                     l_handle = unpack_le (slice data 1 3) AND 0x0FFF,
                     l_cid = unpack_le (slice data 7 9),
                     l_payload = slice data 9 (9 + unpack_le (slice data 5 7)) \<rparr>
         else None)"
      by (simp add: li s1 s2 s3)
    finally show ?thesis
      using True by (simp add: Let_def data_def [symmetric] acl_len_def [symmetric])
  next
    case False
    then consider (a) "data = []" | (b) "unat (data ! 0) \<noteq> 2"
      | (c) "\<not> 5 + acl_len \<le> length data" | (d) "\<not> 4 \<le> acl_len"
      by blast
    then have n: "pb_l2cap_of_packet pkt = None"
    proof cases
      case a
      then show ?thesis
        by (simp add: pb_l2cap_of_packet_def Let_def data_def [symmetric])
    next
      case b
      then show ?thesis
        by (simp add: pb_l2cap_of_packet_def Let_def HCI_ACL_DATA_def data_def [symmetric])
    next
      case c
      then show ?thesis
        by (simp add: pb_l2cap_of_packet_def Let_def data_def [symmetric] acl_len_def [symmetric])
    next
      case d
      then show ?thesis
        by (simp add: pb_l2cap_of_packet_def Let_def data_def [symmetric] acl_len_def [symmetric])
    qed
    from False have "\<not> (data \<noteq> [] \<and> unat (data ! 0) = 2 \<and> 5 + acl_len \<le> length data \<and>
        4 + unpack_le (slice data 5 7) \<le> acl_len)"
      by linarith
    with n show ?thesis
      by (simp add: Let_def data_def [symmetric] acl_len_def [symmetric])
  qed
qed

lemma aap2_l2cap_frame_eq:
  "aap2_l2cap_frame data =
     (let acl_len = unpack_le (slice data 2 4)
      in if length data < 8 \<or> length data < 4 + acl_len \<or> acl_len < 4 then None
         else Some (unpack_le (slice data 6 8), slice data 8 (4 + acl_len)))"
proof (cases "aap2_l2cap_frame data")
  case None
  then show ?thesis
    using aap2_l2cap_frame_None [of data] by (simp add: Let_def)
next
  case (Some a)
  obtain cid d where a: "a = (cid, d)" by (cases a)
  from Some aap2_l2cap_frame_Some [of data cid d] aap2_l2cap_frame_None [of data]
  show ?thesis
    by (auto simp: Let_def a)
qed

text \<open>
  C4 (as amended). \<open>extract_l2cap_data\<close> of \<open>parse_btsnoop.py\<close> reads the 16-bit
  little-endian length and channel identifier of the inner frame (bytes 5 to 7 and 7 to 9
  of a record whose first byte is 2) and gives as payload exactly that many bytes, the
  bytes from 9 on: a record of the data kind whose segment is whole and whose inner frame
  fits in the segment gives a packet frame, and every other record is skipped; so when the
  declared length is more than the segment holds after its 4 header bytes, the record is
  skipped. \<open>extract_rfcomm_data\<close> of the second analyzer reads the channel identifier
  (bytes 6 to 8) and not the inner length: it passes on all the bytes of the segment after
  the channel identifier, and skips a record only when it has fewer than 8 bytes, or the
  segment is longer than the record or shorter than 4 bytes.
\<close>

theorem C4_inner_frame:
  "pb_l2cap_of_packet pkt =
     (let data = p1_data pkt;
          acl_len = unpack_le (slice data 3 5);
          l2cap_len = unpack_le (slice data 5 7)
      in if data \<noteq> [] \<and> unat (data ! 0) = 2 \<and> 5 + acl_len \<le> length data \<and>
            4 + l2cap_len \<le> acl_len
         then Some \<lparr> l_num = p1_num pkt, l_direction = p1_direction pkt,
                     l_handle = unpack_le (slice data 1 3) AND 0x0FFF,
                     l_cid = unpack_le (slice data 7 9),
                     l_payload = slice data 9 (9 + l2cap_len) \<rparr>
         else None) \<and>
   (pb_l2cap_of_packet pkt = Some l \<longrightarrow>
      unat (p1_data pkt ! 0) = 2 \<and>
      l_cid l = unpack_le (slice (p1_data pkt) 7 9) \<and>
      l_payload l = slice (p1_data pkt) 9 (9 + unpack_le (slice (p1_data pkt) 5 7)) \<and>
      length (l_payload l) = unpack_le (slice (p1_data pkt) 5 7)) \<and>
   (unpack_le (slice (p1_data pkt) 3 5) < 4 + unpack_le (slice (p1_data pkt) 5 7) \<longrightarrow>
      pb_l2cap_of_packet pkt = None) \<and>
   aap2_l2cap_frame data =
     (let acl_len = unpack_le (slice data 2 4)
      in if length data < 8 \<or> length data < 4 + acl_len \<or> acl_len < 4 then None
         else Some (unpack_le (slice data 6 8), slice data 8 (4 + acl_len))) \<and>
   (aap2_l2cap_frame data = Some (cid, d) \<longrightarrow>
      cid = unpack_le (slice data 6 8) \<and> d = slice data 8 (4 + unpack_le (slice data 2 4))) \<and>
   (aap2_l2cap_frame data = None \<longleftrightarrow>
      length data < 8 \<or> length data < 4 + unpack_le (slice data 2 4) \<or>
      unpack_le (slice data 2 4) < 4)"
proof -
  have a: "pb_l2cap_of_packet pkt = Some l \<longrightarrow>
      unat (p1_data pkt ! 0) = 2 \<and>
      l_cid l = unpack_le (slice (p1_data pkt) 7 9) \<and>
      l_payload l = slice (p1_data pkt) 9 (9 + unpack_le (slice (p1_data pkt) 5 7)) \<and>
      length (l_payload l) = unpack_le (slice (p1_data pkt) 5 7)"
    using pb_l2cap_of_packet_Some [of pkt l] by blast
  have b: "unpack_le (slice (p1_data pkt) 3 5) < 4 + unpack_le (slice (p1_data pkt) 5 7) \<longrightarrow>
      pb_l2cap_of_packet pkt = None"
    using pb_l2cap_of_packet_short [of pkt] by blast
  have c: "aap2_l2cap_frame data = Some (cid, d) \<longrightarrow>
      cid = unpack_le (slice data 6 8) \<and> d = slice data 8 (4 + unpack_le (slice data 2 4))"
    using aap2_l2cap_frame_Some [of data cid d] by blast
  show ?thesis
    by (intro conjI pb_l2cap_of_packet_eq a b aap2_l2cap_frame_eq c aap2_l2cap_frame_None)
qed

theorem C4_inner_frame_witness:
  "pb_l2cap_of_packet (pb_data_packet (0x02 # l2cap_record 0x40)) =
     Some \<lparr> l_num = 1, l_direction = TX, l_handle = 1, l_cid = 0x40, l_payload = uih_frame_1 \<rparr> \<and>
   unpack_le (slice (0x02 # l2cap_record 0x40) 5 7) = 7 \<and>
   length uih_frame_1 = 7 \<and>
   unpack_le (slice (0x02 # inner_len_16_record) 3 5) = 8 \<and>
   unpack_le (slice (0x02 # inner_len_16_record) 5 7) = 16 \<and>
   pb_l2cap_of_packet (pb_data_packet (0x02 # inner_len_16_record)) = None \<and>
   aap2_l2cap_frame (l2cap_record 0x40) = Some (0x40, uih_frame_1)"
proof -
  define l0 where "l0 = \<lparr> l_num = 1, l_direction = TX, l_handle = 1, l_cid = 0x40,
    l_payload = uih_frame_1 \<rparr>"
  have e: "unpack_le (slice (0x02 # l2cap_record 0x40) 3 5) = 11"
    "unpack_le (slice (0x02 # l2cap_record 0x40) 5 7) = 7"
    "unpack_le (slice (0x02 # l2cap_record 0x40) 1 3) = 1"
    "unpack_le (slice (0x02 # l2cap_record 0x40) 7 9) = 0x40"
    "slice (0x02 # l2cap_record 0x40) 9 16 = uih_frame_1"
    "length (0x02 # l2cap_record 0x40) = 16"
    by (simp_all add: l2cap_record_def uih_frame_1_def slice_def)
  have b: "length uih_frame_1 = 7"
    "unpack_le (slice (0x02 # inner_len_16_record) 3 5) = 8"
    "unpack_le (slice (0x02 # inner_len_16_record) 5 7) = 16"
    by (simp_all add: uih_frame_1_def inner_len_16_record_def slice_def)
  have c: "p1_data (pb_data_packet x) = x" "p1_num (pb_data_packet x) = 1"
    "p1_direction (pb_data_packet x) = TX" for x
    by (simp_all add: pb_data_packet_def)
  have f: "unpack_le (slice (l2cap_record 0x40) 2 4) = 11"
    "unpack_le (slice (l2cap_record 0x40) 6 8) = 0x40"
    "slice (l2cap_record 0x40) 8 15 = uih_frame_1" "length (l2cap_record 0x40) = 15"
    by (simp_all add: l2cap_record_def uih_frame_1_def slice_def)
  note t1 = C4_inner_frame [of "pb_data_packet (0x02 # l2cap_record 0x40)" l0
      "l2cap_record 0x40" "0x40" uih_frame_1]
  note t2 = C4_inner_frame [of "pb_data_packet (0x02 # inner_len_16_record)" l0
      "l2cap_record 0x40" "0x40" uih_frame_1]
  from t1 have "pb_l2cap_of_packet (pb_data_packet (0x02 # l2cap_record 0x40)) =
     (let data = p1_data (pb_data_packet (0x02 # l2cap_record 0x40));
          acl_len = unpack_le (slice data 3 5);
          l2cap_len = unpack_le (slice data 5 7)
      in if data \<noteq> [] \<and> unat (data ! 0) = 2 \<and> 5 + acl_len \<le> length data \<and>
            4 + l2cap_len \<le> acl_len
         then Some \<lparr> l_num = p1_num (pb_data_packet (0x02 # l2cap_record 0x40)),
                     l_direction = p1_direction (pb_data_packet (0x02 # l2cap_record 0x40)),
                     l_handle = unpack_le (slice data 1 3) AND 0x0FFF,
                     l_cid = unpack_le (slice data 7 9),
                     l_payload = slice data 9 (9 + l2cap_len) \<rparr>
         else None)"
    by (rule conjunct1)
  then have r1: "pb_l2cap_of_packet (pb_data_packet (0x02 # l2cap_record 0x40)) =
     Some \<lparr> l_num = 1, l_direction = TX, l_handle = 1, l_cid = 0x40, l_payload = uih_frame_1 \<rparr>"
    by (simp add: Let_def c l2cap_record_def uih_frame_1_def slice_def)
  from t2 have "unpack_le (slice (p1_data (pb_data_packet (0x02 # inner_len_16_record))) 3 5)
        < 4 + unpack_le (slice (p1_data (pb_data_packet (0x02 # inner_len_16_record))) 5 7) \<longrightarrow>
      pb_l2cap_of_packet (pb_data_packet (0x02 # inner_len_16_record)) = None"
    by (elim conjE)
  then have r2: "pb_l2cap_of_packet (pb_data_packet (0x02 # inner_len_16_record)) = None"
    by (simp add: c inner_len_16_record_def slice_def)
  from t1 have "aap2_l2cap_frame (l2cap_record 0x40) =
     (let acl_len = unpack_le (slice (l2cap_record 0x40) 2 4)
      in if length (l2cap_record 0x40) < 8 \<or> length (l2cap_record 0x40) < 4 + acl_len \<or>
            acl_len < 4 then None
         else Some (unpack_le (slice (l2cap_record 0x40) 6 8),
                    slice (l2cap_record 0x40) 8 (4 + acl_len)))"
    by (elim conjE)
  then have r3: "aap2_l2cap_frame (l2cap_record 0x40) = Some (0x40, uih_frame_1)"
    by (simp add: Let_def l2cap_record_def uih_frame_1_def slice_def)
  show ?thesis
    by (intro conjI r1 e(2) b r2 r3)
qed

text \<open>
  The claim as it stands fails on the second analyzer: for a record whose inner frame
  declares 16 bytes while 4 are there, a subchannel frame is given all the same (the
  sibling \<open>extract_l2cap_data\<close> skips the same record).
\<close>

theorem C4_counterexample:
  "unpack_le (slice inner_len_16_record 4 6) = 16 \<and>
   aap2_l2cap_frame inner_len_16_record = Some (0x40, [0x31, 0xEF, 0x03, 0xAA]) \<and>
   aap2_extract_rfcomm_data [aap_acl_packet inner_len_16_record] =
     [\<lparr> r_timestamp = 7, r_direction = TX, r_dlci = 12, r_data = [0xAA] \<rparr>] \<and>
   pb_extract_l2cap_data [pb_data_packet (0x02 # inner_len_16_record)] = []"
proof -
  have a: "unpack_le (slice inner_len_16_record 4 6) = 16"
    by (simp add: inner_len_16_record_def slice_def)
  have b: "aap2_l2cap_frame inner_len_16_record = Some (0x40, [0x31, 0xEF, 0x03, 0xAA])"
    by (simp add: aap2_l2cap_frame_def inner_len_16_record_def slice_def Let_def)
  have c: "aap2_uih_frame 0x40 [0x31, 0xEF, 0x03, 0xAA] = Some (12, [0xAA])"
    by (simp add: aap2_uih_frame_def rfcomm_length_field_def slice_def Let_def)
  have d: "aap2_extract_rfcomm_data [aap_acl_packet inner_len_16_record] =
     [\<lparr> r_timestamp = 7, r_direction = TX, r_dlci = 12, r_data = [0xAA] \<rparr>]"
    by (simp add: aap2_rfcomm_of_packet_def aap_acl_packet_def b c)
  have e: "pb_l2cap_of_packet (pb_data_packet (0x02 # inner_len_16_record)) = None"
    by (simp add: pb_l2cap_of_packet_def pb_data_packet_def inner_len_16_record_def slice_def
        Let_def HCI_ACL_DATA_def)
  from a b d e show ?thesis by simp
qed

section \<open>Dynamic channels\<close>



lemma aap2_extract_set:
  "r \<in> set (aap2_extract_rfcomm_data packets) \<longleftrightarrow>
     (\<exists>pkt\<in>set packets. aap2_rfcomm_of_packet pkt = Some r)"
  by (induction packets) (auto split: option.splits)

lemma pb3_rfcomm_loop_set:
  "r \<in> set (pb3_rfcomm_loop pkts) \<longleftrightarrow> (\<exists>pkt\<in>set pkts. pb3_rfcomm_of pkt = Some r)"
  by (induction pkts) (auto split: option.splits)

lemma pb_extract_rfcomm_set:
  "r \<in> set (pb_extract_rfcomm_data pkts) \<longleftrightarrow> (\<exists>pkt\<in>set pkts. pb_rfcomm_of pkt = Some r)"
  by (induction pkts) (auto split: option.splits)

lemma aap2_rfcomm_of_packet_Some:
  "aap2_rfcomm_of_packet pkt = Some r \<Longrightarrow>
     \<exists>cid d. p_type pkt = ACL \<and> aap2_l2cap_frame (p_data pkt) = Some (cid, d) \<and> 0x40 \<le> cid"
  by (auto simp: aap2_rfcomm_of_packet_def aap2_uih_frame_def split: if_splits option.splits)

lemma pb_rfcomm_of_Some: "pb_rfcomm_of l = Some r \<Longrightarrow> 3 < l_cid l"
  by (auto simp: pb_rfcomm_of_def Let_def split: if_splits)

lemma pb3_analyze_rfcomm_set:
  "r \<in> set (pb3_analyze_rfcomm_packets dps) \<longleftrightarrow>
     (\<exists>dp\<in>set dps. 0x40 \<le> d_cid dp \<and> pb3_rfcomm_of dp = Some r)"
  by (auto simp: pb3_analyze_rfcomm_packets_def Let_def pb3_rfcomm_loop_set filter_empty_conv)


lemma aap2_parse_loop_fst:
  "e \<in> set (fst (aap2_parse_loop pkts (acc, s))) \<Longrightarrow>
     e \<in> set acc \<or>
     (\<exists>p\<in>set pkts. e_raw e = r_data p \<and> e_timestamp e = r_timestamp p \<and>
        aap2_parse_autel_packet (r_data p) (r_direction p) = Parsed (e_msg e))"
proof (induction pkts arbitrary: acc s)
  case Nil
  then show ?case by simp
next
  case (Cons p pkts)
  show ?case
  proof (cases "aap2_parse_autel_packet (r_data p) (r_direction p)")
    case (Parsed m)
    with Cons.prems Cons.IH [of _ "sessions_append s (m_session_id m) \<lparr>e_msg = m, e_timestamp = r_timestamp p, e_raw = r_data p\<rparr>"]
    show ?thesis by (fastforce simp: Let_def)
  next
    case (Invalid d)
    with Cons.prems Cons.IH [of acc s] show ?thesis by auto
  next
    case (Short d)
    with Cons.prems Cons.IH [of acc s] show ?thesis by auto
  qed
qed

text \<open>
  C5 (as amended). In the analyzers and in \<open>parse_btsnoop_v3.py\<close> only the frames of the
  channels from \<open>0x0040\<close> on reach the subchannel layer: every subchannel frame of
  \<open>extract_rfcomm_data\<close> and of \<open>analyze_rfcomm_packets\<close>, and so every parsed vendor
  message of \<open>main\<close>, comes from a packet whose channel identifier is at least \<open>0x0040\<close>,
  and a frame of a lower channel gives nothing. \<open>extract_rfcomm_data\<close> of
  \<open>parse_btsnoop.py\<close> skips only the channels up to 3.
\<close>

theorem C5_dynamic_channels:
  "(\<forall>r\<in>set (aap2_extract_rfcomm_data packets).
      \<exists>pkt\<in>set packets. \<exists>cid d. aap2_l2cap_frame (p_data pkt) = Some (cid, d) \<and> 0x40 \<le> cid \<and>
        aap2_rfcomm_of_packet pkt = Some r) \<and>
   (cid' < 0x40 \<longrightarrow> aap2_uih_frame cid' d' = None) \<and>
   (\<forall>r\<in>set (pb3_analyze_rfcomm_packets data_packets).
      \<exists>dp\<in>set data_packets. 0x40 \<le> d_cid dp \<and> pb3_rfcomm_of dp = Some r) \<and>
   ((\<forall>dp\<in>set data_packets. d_cid dp < 0x40) \<longrightarrow> pb3_analyze_rfcomm_packets data_packets = []) \<and>
   (\<forall>e\<in>set (fst (aap2_main packets)).
      \<exists>pkt\<in>set packets. \<exists>cid d r. aap2_l2cap_frame (p_data pkt) = Some (cid, d) \<and> 0x40 \<le> cid \<and>
        aap2_rfcomm_of_packet pkt = Some r \<and> e_raw e = r_data r) \<and>
   (\<forall>r\<in>set (pb_extract_rfcomm_data l2cap_packets).
      \<exists>l\<in>set l2cap_packets. 3 < l_cid l \<and> pb_rfcomm_of l = Some r)"
proof -
  have a: "\<forall>r\<in>set (aap2_extract_rfcomm_data packets).
      \<exists>pkt\<in>set packets. \<exists>cid d. aap2_l2cap_frame (p_data pkt) = Some (cid, d) \<and> 0x40 \<le> cid \<and>
        aap2_rfcomm_of_packet pkt = Some r"
  proof
    fix r
    assume "r \<in> set (aap2_extract_rfcomm_data packets)"
    then obtain pkt where pkt: "pkt \<in> set packets" "aap2_rfcomm_of_packet pkt = Some r"
      by (auto simp: aap2_extract_set)
    from aap2_rfcomm_of_packet_Some [OF pkt(2)] pkt
    show "\<exists>pkt\<in>set packets. \<exists>cid d. aap2_l2cap_frame (p_data pkt) = Some (cid, d) \<and> 0x40 \<le> cid \<and>
        aap2_rfcomm_of_packet pkt = Some r"
      by blast
  qed
  have b: "cid' < 0x40 \<longrightarrow> aap2_uih_frame cid' d' = None"
    by (simp add: aap2_uih_frame_def)
  have c: "\<forall>r\<in>set (pb3_analyze_rfcomm_packets data_packets).
      \<exists>dp\<in>set data_packets. 0x40 \<le> d_cid dp \<and> pb3_rfcomm_of dp = Some r"
    by (simp add: pb3_analyze_rfcomm_set)
  have c': "(\<forall>dp\<in>set data_packets. d_cid dp < 0x40) \<longrightarrow> pb3_analyze_rfcomm_packets data_packets = []"
    by (auto simp: pb3_analyze_rfcomm_packets_def filter_empty_conv)
  have d: "\<forall>e\<in>set (fst (aap2_main packets)).
      \<exists>pkt\<in>set packets. \<exists>cid d r. aap2_l2cap_frame (p_data pkt) = Some (cid, d) \<and> 0x40 \<le> cid \<and>
        aap2_rfcomm_of_packet pkt = Some r \<and> e_raw e = r_data r"
  proof
    fix e
    assume "e \<in> set (fst (aap2_main packets))"
    then have "e \<in> set (fst (aap2_parse_loop
        (aap2_dlci12_packets (aap2_extract_rfcomm_data packets)) ([], Map.empty)))"
      by (simp add: aap2_main_def aap2_main_sessions_def)
    from aap2_parse_loop_fst [OF this]
    obtain q where "q \<in> set (aap2_dlci12_packets (aap2_extract_rfcomm_data packets))"
      and raw: "e_raw e = r_data q"
      by auto
    then have "q \<in> set (aap2_extract_rfcomm_data packets)"
      by (simp add: aap2_dlci12_packets_def)
    with a obtain pkt cid d where "pkt \<in> set packets" "aap2_l2cap_frame (p_data pkt) = Some (cid, d)"
      "0x40 \<le> cid" "aap2_rfcomm_of_packet pkt = Some q"
      by blast
    with raw
    show "\<exists>pkt\<in>set packets. \<exists>cid d r. aap2_l2cap_frame (p_data pkt) = Some (cid, d) \<and> 0x40 \<le> cid \<and>
        aap2_rfcomm_of_packet pkt = Some r \<and> e_raw e = r_data r"
      by blast
  qed
  have f: "\<forall>r\<in>set (pb_extract_rfcomm_data l2cap_packets).
      \<exists>l\<in>set l2cap_packets. 3 < l_cid l \<and> pb_rfcomm_of l = Some r"
  proof
    fix r
    assume "r \<in> set (pb_extract_rfcomm_data l2cap_packets)"
    then obtain l where l: "l \<in> set l2cap_packets" "pb_rfcomm_of l = Some r"
      by (auto simp: pb_extract_rfcomm_set)
    from pb_rfcomm_of_Some [OF l(2)] l
    show "\<exists>l\<in>set l2cap_packets. 3 < l_cid l \<and> pb_rfcomm_of l = Some r"
      by blast
  qed
  show ?thesis by (intro conjI a b c c' d f)
qed

theorem C5_dynamic_channels_witness:
  "aap2_extract_rfcomm_data [aap_acl_packet (l2cap_record 0x40)] =
     [\<lparr> r_timestamp = 7, r_direction = TX, r_dlci = 12, r_data = [0xAA, 0xBB, 0xCC] \<rparr>] \<and>
   aap2_l2cap_frame (l2cap_record 0x40) = Some (0x40, uih_frame_1) \<and>
   aap2_l2cap_frame (l2cap_record 0x04) = Some (0x04, uih_frame_1) \<and>
   aap2_uih_frame 0x04 uih_frame_1 = None \<and>
   pb3_analyze_rfcomm_packets [uih_data_packet uih_frame_1\<lparr>d_cid := 0x04\<rparr>] = []"
proof -
  have a: "aap2_l2cap_frame (l2cap_record 0x40) = Some (0x40, uih_frame_1)"
    "aap2_l2cap_frame (l2cap_record 0x04) = Some (0x04, uih_frame_1)"
    by (simp_all add: aap2_l2cap_frame_def l2cap_record_def uih_frame_1_def slice_def Let_def)
  have b: "aap2_uih_frame 0x40 uih_frame_1 = Some (12, [0xAA, 0xBB, 0xCC])"
    by (simp add: aap2_uih_frame_def rfcomm_length_field_def uih_frame_1_def slice_def Let_def)
  have c: "aap2_extract_rfcomm_data [aap_acl_packet (l2cap_record 0x40)] =
     [\<lparr> r_timestamp = 7, r_direction = TX, r_dlci = 12, r_data = [0xAA, 0xBB, 0xCC] \<rparr>]"
    by (simp add: aap2_rfcomm_of_packet_def aap_acl_packet_def a b)
  have d: "\<forall>dp\<in>set [uih_data_packet uih_frame_1\<lparr>d_cid := 0x04\<rparr>]. d_cid dp < 0x40"
    by simp
  from C5_dynamic_channels [of "[aap_acl_packet (l2cap_record 0x40)]" "0x04" uih_frame_1
      "[uih_data_packet uih_frame_1\<lparr>d_cid := 0x04\<rparr>]" "[]"] a c d
  show ?thesis
    by simp
qed

text \<open>
  The claim as it stands fails on \<open>parse_btsnoop.py\<close>: a frame on channel 4 gives a
  subchannel payload.
\<close>

theorem C5_counterexample:
  "unpack_le (slice (0x02 # l2cap_record 0x04) 7 9) = 4 \<and>
   pb_extract_l2cap_data [pb_data_packet (0x02 # l2cap_record 0x04)] =
     [\<lparr> l_num = 1, l_direction = TX, l_handle = 1, l_cid = 4, l_payload = uih_frame_1 \<rparr>] \<and>
   pb_extract_rfcomm_data (pb_extract_l2cap_data [pb_data_packet (0x02 # l2cap_record 0x04)]) =
     [\<lparr> n_num = 1, n_direction = TX, n_dlci = 12, n_data = [0xAA, 0xBB, 0xCC] \<rparr>]"
proof -
  have a: "unpack_le (slice (0x02 # l2cap_record 0x04) 7 9) = 4"
    by (simp add: l2cap_record_def slice_def)
  have b: "pb_l2cap_of_packet (pb_data_packet (0x02 # l2cap_record 0x04)) =
     Some \<lparr> l_num = 1, l_direction = TX, l_handle = 1, l_cid = 4, l_payload = uih_frame_1 \<rparr>"
    by (simp add: pb_l2cap_of_packet_def pb_data_packet_def l2cap_record_def uih_frame_1_def
        slice_def Let_def HCI_ACL_DATA_def)
  have c: "pb_rfcomm_of \<lparr> l_num = 1, l_direction = TX, l_handle = 1, l_cid = 4, l_payload = uih_frame_1 \<rparr> =
     Some \<lparr> n_num = 1, n_direction = TX, n_dlci = 12, n_data = [0xAA, 0xBB, 0xCC] \<rparr>"
    by (simp add: pb_rfcomm_of_def rfcomm_length_field_def uih_frame_1_def slice_def Let_def)
  from a b c show ?thesis
    by simp
qed

section \<open>Subchannel 12\<close>

lemma aap2_parse_loop_snd:
  assumes "\<forall>sid es. s sid = Some es \<longrightarrow> set es \<subseteq> set acc"
    and "snd (aap2_parse_loop pkts (acc, s)) sid = Some es"
  shows "set es \<subseteq> set (fst (aap2_parse_loop pkts (acc, s)))"
  using assms
proof (induction pkts arbitrary: acc s)
  case Nil
  then show ?case by simp
next
  case (Cons p pkts)
  show ?case
  proof (cases "aap2_parse_autel_packet (r_data p) (r_direction p)")
    case (Parsed m)
    define e where "e = \<lparr>e_msg = m, e_timestamp = r_timestamp p, e_raw = r_data p\<rparr>"
    have inv: "\<forall>sid' es'. sessions_append s (m_session_id m) e sid' = Some es' \<longrightarrow>
        set es' \<subseteq> set (acc @ [e])"
    proof (intro allI impI)
      fix sid' es'
      assume h: "sessions_append s (m_session_id m) e sid' = Some es'"
      show "set es' \<subseteq> set (acc @ [e])"
      proof (cases "sid' = m_session_id m")
        case True
        show ?thesis
        proof (cases "s (m_session_id m)")
          case None
          with h True show ?thesis by (simp add: sessions_append_def)
        next
          case (Some old)
          with Cons.prems(1) have "set old \<subseteq> set acc" by blast
          with h True Some show ?thesis by (auto simp: sessions_append_def)
        qed
      next
        case False
        with h have "s sid' = Some es'" by (simp add: sessions_append_def)
        with Cons.prems(1) have "set es' \<subseteq> set acc" by blast
        then show ?thesis by auto
      qed
    qed
    from Cons.prems(2) Parsed
    have "snd (aap2_parse_loop pkts (acc @ [e], sessions_append s (m_session_id m) e)) sid = Some es"
      by (simp add: Let_def e_def)
    from Cons.IH [OF inv this] Parsed show ?thesis
      by (simp add: Let_def e_def)
  next
    case (Invalid d)
    with Cons.prems Cons.IH [of s acc] show ?thesis by simp
  next
    case (Short d)
    with Cons.prems Cons.IH [of s acc] show ?thesis by simp
  qed
qed

lemma aap_analysis_loop_set:
  "(p, a) \<in> set (aap_analysis_loop pkts) \<Longrightarrow>
     p \<in> set pkts \<and> aap_analyze_autel_packet (r_data p) (r_direction p) = AParsed a"
  by (induction pkts) (auto split: aap_result.splits)

text \<open>
  C9. Only the subchannel frames whose subchannel identifier is 12 are parsed and
  correlated by \<open>main\<close>, in both analyzers: a frame of another subchannel can be taken
  out of the list without any change to the parsed messages, the sessions or the analyses;
  every parsed message comes from a frame of subchannel 12, and every session holds parsed
  messages only.
\<close>

theorem C9_subchannel_12:
  "(r_dlci p \<noteq> 12 \<longrightarrow>
      aap2_main_sessions (xs @ p # ys) = aap2_main_sessions (xs @ ys) \<and>
      aap_main (xs @ p # ys) = aap_main (xs @ ys)) \<and>
   (\<forall>e\<in>set (fst (aap2_main_sessions rfcomm_packets)).
      \<exists>q\<in>set rfcomm_packets. r_dlci q = 12 \<and> e_raw e = r_data q \<and>
        aap2_parse_autel_packet (r_data q) (r_direction q) = Parsed (e_msg e)) \<and>
   (\<forall>sid es. snd (aap2_main_sessions rfcomm_packets) sid = Some es \<longrightarrow>
      set es \<subseteq> set (fst (aap2_main_sessions rfcomm_packets))) \<and>
   (\<forall>(q, a)\<in>set (aap_main rfcomm_packets). q \<in> set rfcomm_packets \<and> r_dlci q = 12)"
proof -
  have a: "r_dlci p \<noteq> 12 \<longrightarrow>
      aap2_main_sessions (xs @ p # ys) = aap2_main_sessions (xs @ ys) \<and>
      aap_main (xs @ p # ys) = aap_main (xs @ ys)"
    by (simp add: aap2_main_sessions_def aap_main_def aap2_dlci12_packets_def aap_dlci12_packets_def)
  have b: "\<forall>e\<in>set (fst (aap2_main_sessions rfcomm_packets)).
      \<exists>q\<in>set rfcomm_packets. r_dlci q = 12 \<and> e_raw e = r_data q \<and>
        aap2_parse_autel_packet (r_data q) (r_direction q) = Parsed (e_msg e)"
  proof
    fix e
    assume "e \<in> set (fst (aap2_main_sessions rfcomm_packets))"
    then have "e \<in> set (fst (aap2_parse_loop (aap2_dlci12_packets rfcomm_packets) ([], Map.empty)))"
      by (simp add: aap2_main_sessions_def)
    from aap2_parse_loop_fst [OF this]
    obtain q where q: "q \<in> set (aap2_dlci12_packets rfcomm_packets)" "e_raw e = r_data q"
      "aap2_parse_autel_packet (r_data q) (r_direction q) = Parsed (e_msg e)"
      by auto
    from q(1) have "q \<in> set rfcomm_packets" "r_dlci q = 12"
      by (simp_all add: aap2_dlci12_packets_def)
    with q(2,3)
    show "\<exists>q\<in>set rfcomm_packets. r_dlci q = 12 \<and> e_raw e = r_data q \<and>
        aap2_parse_autel_packet (r_data q) (r_direction q) = Parsed (e_msg e)"
      by blast
  qed
  have c: "\<forall>sid es. snd (aap2_main_sessions rfcomm_packets) sid = Some es \<longrightarrow>
      set es \<subseteq> set (fst (aap2_main_sessions rfcomm_packets))"
  proof (intro allI impI)
    fix sid es
    assume h: "snd (aap2_main_sessions rfcomm_packets) sid = Some es"
    have e: "\<forall>sid es. (Map.empty :: nat \<rightharpoonup> aap2_entry list) sid = Some es \<longrightarrow> set es \<subseteq> set []"
      by simp
    from h have "snd (aap2_parse_loop (aap2_dlci12_packets rfcomm_packets) ([], Map.empty)) sid = Some es"
      by (simp add: aap2_main_sessions_def)
    from aap2_parse_loop_snd [OF e this]
    show "set es \<subseteq> set (fst (aap2_main_sessions rfcomm_packets))"
      by (simp add: aap2_main_sessions_def)
  qed
  have d: "\<forall>(q, a)\<in>set (aap_main rfcomm_packets). q \<in> set rfcomm_packets \<and> r_dlci q = 12"
  proof (intro ballI, clarify)
    fix q a
    assume "(q, a) \<in> set (aap_main rfcomm_packets)"
    then have "(q, a) \<in> set (aap_analysis_loop (aap_dlci12_packets rfcomm_packets))"
      by (simp add: aap_main_def)
    from aap_analysis_loop_set [OF this]
    show "q \<in> set rfcomm_packets \<and> r_dlci q = 12"
      by (simp add: aap_dlci12_packets_def)
  qed
  show ?thesis by (intro conjI a b c d)
qed

theorem C9_subchannel_12_witness:
  "r_dlci (vendor_rfcomm 5) \<noteq> 12 \<and>
   aap2_parse_autel_packet (r_data (vendor_rfcomm 5)) (r_direction (vendor_rfcomm 5)) =
     Parsed (aap2_parse_fields sent_j2534_frame TX 0) \<and>
   aap2_main_sessions [vendor_rfcomm 5] = ([], Map.empty) \<and>
   aap_main [vendor_rfcomm 5] = [] \<and>
   aap2_main_sessions [vendor_rfcomm 12, vendor_rfcomm 5] = aap2_main_sessions [vendor_rfcomm 12] \<and>
   fst (aap2_main_sessions [vendor_rfcomm 12]) =
     [\<lparr> e_msg = aap2_parse_fields sent_j2534_frame TX 0, e_timestamp = 7, e_raw = sent_j2534_frame \<rparr>]"
proof -
  have a: "r_dlci (vendor_rfcomm 5) \<noteq> 12" "r_dlci (vendor_rfcomm 12) = 12"
    "r_data (vendor_rfcomm n) = sent_j2534_frame" "r_direction (vendor_rfcomm n) = TX"
    "r_timestamp (vendor_rfcomm n) = 7" for n
    by (simp_all add: vendor_rfcomm_def)
  have b: "aap2_main_sessions [] = ([], Map.empty)" "aap_main [] = []"
    by (simp_all add: aap2_main_sessions_def aap2_dlci12_packets_def aap_main_def
        aap_dlci12_packets_def)
  have c: "fst (aap2_main_sessions [vendor_rfcomm 12]) =
     [\<lparr> e_msg = aap2_parse_fields sent_j2534_frame TX 0, e_timestamp = 7, e_raw = sent_j2534_frame \<rparr>]"
    by (simp add: aap2_main_sessions_def aap2_dlci12_packets_def a sent_j2534_parsed Let_def)
  from C9_subchannel_12 [of "vendor_rfcomm 5" "[]" "[]" "[]"]
    C9_subchannel_12 [of "vendor_rfcomm 5" "[vendor_rfcomm 12]" "[]" "[]"]
    a b c sent_j2534_parsed
  show ?thesis
    by simp
qed

section \<open>The capture reader\<close>

lemma slice_take: "b \<le> n \<Longrightarrow> slice (take n xs) a b = slice xs a b"
  by (simp add: slice_def drop_take min_def)

lemma read_records_short: "length f < 24 \<Longrightarrow> read_records f = []"
  by (subst read_records.simps) simp

lemma read_records_truncated:
  "24 \<le> length f \<Longrightarrow> length f < 24 + unpack_be (slice f 4 8) \<Longrightarrow> read_records f = []"
  by (subst read_records.simps) (simp add: slice_take)

lemma read_records_step:
  assumes "length h = 24" and "length b = unpack_be (slice h 4 8)"
  shows "read_records (h @ b @ rest) = unpack_rec_header h b # read_records rest"
  using assms by (subst read_records.simps) simp

lemma read_records_chunks:
  assumes "\<forall>(h, b)\<in>set chunks. length h = 24 \<and> length b = unpack_be (slice h 4 8)"
    and "length tail < 24 \<or> length tail < 24 + unpack_be (slice tail 4 8)"
  shows "read_records (concat (map (\<lambda>(h, b). h @ b) chunks) @ tail) =
         map (\<lambda>(h, b). unpack_rec_header h b) chunks"
  using assms(1)
proof (induction chunks)
  case Nil
  show ?case
  proof (cases "length tail < 24")
    case True
    then show ?thesis by (simp add: read_records_short)
  next
    case False
    with assms(2) have "24 \<le> length tail" "length tail < 24 + unpack_be (slice tail 4 8)"
      by auto
    then show ?thesis by (simp add: read_records_truncated)
  qed
next
  case (Cons c chunks)
  obtain h b where c: "c = (h, b)" by (cases c)
  with Cons.prems have hb: "length h = 24" "length b = unpack_be (slice h 4 8)"
    by auto
  from Cons have IH: "read_records (concat (map (\<lambda>(h, b). h @ b) chunks) @ tail) =
         map (\<lambda>(h, b). unpack_rec_header h b) chunks"
    by simp
  show ?case
    using read_records_step [OF hb, of "concat (map (\<lambda>(h, b). h @ b) chunks) @ tail"] IH
    by (simp add: c)
qed

lemma capture_body_decomposition:
  "\<exists>chunks tail. f = concat (map (\<lambda>(h, b). h @ b) chunks) @ tail \<and>
     (\<forall>(h, b)\<in>set chunks. length h = 24 \<and> length b = unpack_be (slice h 4 8)) \<and>
     (length tail < 24 \<or> length tail < 24 + unpack_be (slice tail 4 8))"
proof (induction f rule: length_induct)
  case (1 f)
  show ?case
  proof (cases "length f < 24 \<or> length f < 24 + unpack_be (slice f 4 8)")
    case True
    then show ?thesis
      by (intro exI [of _ "[]"] exI [of _ f]) simp
  next
    case False
    define n where "n = unpack_be (slice f 4 8)"
    define h where "h = take 24 f"
    define b where "b = take n (drop 24 f)"
    define rest where "rest = drop (24 + n) f"
    from False have len: "24 + n \<le> length f" by (simp add: n_def)
    have f: "f = h @ b @ rest"
      unfolding h_def b_def rest_def
      by (metis add.commute append_take_drop_id drop_drop)
    have hb: "length h = 24" "length b = unpack_be (slice h 4 8)"
      using len by (simp_all add: h_def b_def n_def slice_take)
    have "length rest < length f"
      using len by (simp add: rest_def)
    with 1 obtain chunks tail where r: "rest = concat (map (\<lambda>(h, b). h @ b) chunks) @ tail"
      "\<forall>(h, b)\<in>set chunks. length h = 24 \<and> length b = unpack_be (slice h 4 8)"
      "length tail < 24 \<or> length tail < 24 + unpack_be (slice tail 4 8)"
      by blast
    show ?thesis
      by (intro exI [of _ "(h, b) # chunks"] exI [of _ tail]) (use f r hb in simp)
  qed
qed

lemma pb3_packets_data: "map p3_data (pb3_packets n rs) = map rr_data rs"
  by (induction rs arbitrary: n) (simp_all add: pb3_packet_of_def Let_def)

lemma pb3_packets_num: "map p3_num (pb3_packets n rs) = [Suc n..<Suc n + length rs]"
  by (induction rs arbitrary: n) (simp_all add: pb3_packet_of_def Let_def upt_rec)

lemma length_BTSNOOP_MAGIC [simp]: "length BTSNOOP_MAGIC = 8"
  by (simp add: BTSNOOP_MAGIC_def)

lemma startswith_append: "length p \<le> length xs \<Longrightarrow> startswith (xs @ ys) p = startswith xs p"
  by (simp add: startswith_def)

lemma pb3_parse_btsnoop_header:
  assumes "length header = 16" and "startswith header BTSNOOP_MAGIC"
  shows "pb3_parse_btsnoop (header @ body) =
         Inr (pb3_packets 0 (read_records body), unpack_be (slice header 12 16))"
  using assms by (simp add: pb3_parse_btsnoop_def Let_def slice_def)

lemma pb_parse_btsnoop_header:
  assumes "length header = 16" and "startswith header BTSNOOP_MAGIC"
  shows "pb_parse_btsnoop (header @ body) = Inr (pb_packets 0 (read_records body))"
  using assms by (simp add: pb_parse_btsnoop_def Let_def slice_def)

lemma pb2_parse_btsnoop_header:
  assumes "length header = 16" and "startswith header BTSNOOP_MAGIC"
  shows "pb2_parse_btsnoop (header @ body) = Inr (pb2_packets 0 (read_records body))"
  using assms by (simp add: pb2_parse_btsnoop_def Let_def slice_def)

lemma capture_header_ok:
  "length (capture_header lt) = 16" "startswith (capture_header lt) BTSNOOP_MAGIC"
  by (simp_all add: capture_header_def startswith_def)

lemma capture_header_link_type:
  "unpack_be (slice (capture_header 0xE9) 12 16) = 1001"
  "unpack_be (slice (capture_header 0xEA) 12 16) = 1002"
  by (simp_all add: capture_header_def BTSNOOP_MAGIC_def slice_def unpack_be_def)

lemma event_rec_ok:
  "length event_rec_header = 24" "length event_rec_body = unpack_be (slice event_rec_header 4 8)"
  by (simp_all add: event_rec_header_def event_rec_body_def slice_def unpack_be_def)

lemma event_rec_unpacked:
  "unpack_rec_header event_rec_header event_rec_body =
     \<lparr> rr_orig_len = 3, rr_incl_len = 3, rr_flags = 0, rr_drops = 0, rr_timestamp = 7,
       rr_data = [0x04, 0x0E, 0x00] \<rparr>"
  by (simp add: unpack_rec_header_def event_rec_header_def event_rec_body_def slice_def unpack_be_def)

lemma event_rec_read: "read_records (event_rec_header @ event_rec_body) =
     [\<lparr> rr_orig_len = 3, rr_incl_len = 3, rr_flags = 0, rr_drops = 0, rr_timestamp = 7,
        rr_data = [0x04, 0x0E, 0x00] \<rparr>]"
  using read_records_step [OF event_rec_ok, of "[]"]
  by (simp add: read_records_short event_rec_unpacked)

text \<open>
  C7. For a capture with a well-formed header (16 bytes that start with the magic)
  \<open>parse_btsnoop\<close> gives exactly the records whose 24-byte header and whole body of
  \<open>included_length\<close> bytes are in the file, in file order and numbered from 1: a file that
  is the header, then complete records, then a tail that is a cut record (fewer than 24
  bytes, or a header whose body is cut; every file has this shape, lemma
  \<open>capture_body_decomposition\<close>) gives the complete records and no error, and nothing for
  the tail. A file that is just the header gives the empty list.
\<close>

theorem C7_capture_reader:
  assumes "length header = 16" and "startswith header BTSNOOP_MAGIC"
    and "\<forall>(h, b)\<in>set chunks. length h = 24 \<and> length b = unpack_be (slice h 4 8)"
    and "length tail < 24 \<or> length tail < 24 + unpack_be (slice tail 4 8)"
  shows "pb3_parse_btsnoop (header @ concat (map (\<lambda>(h, b). h @ b) chunks) @ tail) =
           Inr (pb3_packets 0 (map (\<lambda>(h, b). unpack_rec_header h b) chunks),
                unpack_be (slice header 12 16)) \<and>
         map p3_data (pb3_packets 0 (map (\<lambda>(h, b). unpack_rec_header h b) chunks)) = map snd chunks \<and>
         map p3_num (pb3_packets 0 (map (\<lambda>(h, b). unpack_rec_header h b) chunks)) =
           [1..<Suc (length chunks)] \<and>
         pb3_parse_btsnoop header = Inr ([], unpack_be (slice header 12 16))"
proof -
  have a: "pb3_parse_btsnoop (header @ concat (map (\<lambda>(h, b). h @ b) chunks) @ tail) =
           Inr (pb3_packets 0 (map (\<lambda>(h, b). unpack_rec_header h b) chunks),
                unpack_be (slice header 12 16))"
    by (simp add: pb3_parse_btsnoop_header [OF assms(1,2)] read_records_chunks [OF assms(3,4)])
  have "map rr_data (map (\<lambda>(h, b). unpack_rec_header h b) chunks) = map snd chunks"
    by (simp add: unpack_rec_header_def case_prod_beta)
  then have b: "map p3_data (pb3_packets 0 (map (\<lambda>(h, b). unpack_rec_header h b) chunks)) = map snd chunks"
    by (simp add: pb3_packets_data)
  have c: "map p3_num (pb3_packets 0 (map (\<lambda>(h, b). unpack_rec_header h b) chunks)) =
           [1..<Suc (length chunks)]"
    by (simp add: pb3_packets_num)
  have d: "pb3_parse_btsnoop header = Inr ([], unpack_be (slice header 12 16))"
    using pb3_parse_btsnoop_header [OF assms(1,2), of "[]"] by (simp add: read_records_short)
  show ?thesis by (intro conjI a b c d)
qed

theorem C7_capture_reader_witness:
  "pb3_parse_btsnoop
     (capture_header 0xE9 @ event_rec_header @ event_rec_body @ event_rec_header @ [0x04]) =
     Inr ([\<lparr> p3_num = 1, p3_timestamp = 7, p3_direction = TX, p3_type = ACL, p3_flags = 0,
             p3_data = [0x04, 0x0E, 0x00] \<rparr>], 1001) \<and>
   pb3_parse_btsnoop (capture_header 0xE9) = Inr ([], 1001)"
proof -
  have ch: "\<forall>(h, b)\<in>set [(event_rec_header, event_rec_body)].
      length h = 24 \<and> length b = unpack_be (slice h 4 8)"
    using event_rec_ok by simp
  have tl: "length (event_rec_header @ [0x04]) < 24 \<or>
      length (event_rec_header @ [0x04]) < 24 + unpack_be (slice (event_rec_header @ [0x04]) 4 8)"
    by (simp add: event_rec_header_def slice_def unpack_be_def)
  from C7_capture_reader [OF capture_header_ok ch tl, of "0xE9"]
  show ?thesis
    by (simp add: capture_header_link_type event_rec_unpacked pb3_packet_of_def)
qed

section \<open>The kind of a record\<close>

lemma aap_parse_btsnoop_header:
  assumes "length header = 16" and "startswith header BTSNOOP_MAGIC"
  shows "aap_parse_btsnoop (header @ body) = map aap_packet_of (read_records body)"
    and "aap2_parse_btsnoop (header @ body) = map aap2_packet_of (read_records body)"
  using assms by (simp_all add: aap_parse_btsnoop_def aap2_parse_btsnoop_def Let_def)

lemma pb_l2cap_flags_free:
  "pb_l2cap_of_packet (pkt\<lparr>p1_is_command := c, p1_flags := f\<rparr>) = pb_l2cap_of_packet pkt"
  by (simp add: pb_l2cap_of_packet_def Let_def)

lemma aap_packet_of_kind:
  "p_type (aap_packet_of r) =
     (if rr_flags r AND 2 \<noteq> 0 then (if rr_flags r AND 1 \<noteq> 0 then EVENT else COMMAND) else ACL)"
  "p_type (aap2_packet_of r) =
     (if rr_flags r AND 2 \<noteq> 0 then (if rr_flags r AND 1 \<noteq> 0 then EVENT else COMMAND) else ACL)"
  "p_data (aap_packet_of r) = rr_data r" "p_data (aap2_packet_of r) = rr_data r"
  by (simp_all add: aap_packet_of_def aap2_packet_of_def Let_def)

text \<open>
  C6 (as amended). No parser selects a mode from the link-type of the header: the
  packets read from a capture with a well-formed header do not depend on the link-type,
  which \<open>parse_btsnoop_v3.py\<close> only returns. Each parser has one mode for every capture.
  \<open>parse_btsnoop_v3.py\<close> and the two analyzers derive the kind from the flags alone and
  keep the whole body, first byte included, as data (the handle is read from its first two
  bytes). \<open>parse_btsnoop_v2.py\<close> takes the first byte of the body as the type (1 command,
  2 data, 3 voice, 4 event, anything else other). \<open>parse_btsnoop.py\<close> takes the first
  byte as the type too, but tests it against 2 (data) only: a record with another first
  byte gives no packet frame, the handle is read behind the type byte, the flags play no
  part in that, and its field \<open>is_command\<close> is bit 1 of the flags.
\<close>

theorem C6_classifier_mode:
  "(length header = 16 \<and> startswith header BTSNOOP_MAGIC \<longrightarrow>
      pb3_parse_btsnoop (header @ body) =
        Inr (pb3_packets 0 (read_records body), unpack_be (slice header 12 16)) \<and>
      pb_parse_btsnoop (header @ body) = Inr (pb_packets 0 (read_records body)) \<and>
      pb2_parse_btsnoop (header @ body) = Inr (pb2_packets 0 (read_records body)) \<and>
      aap_parse_btsnoop (header @ body) = map aap_packet_of (read_records body) \<and>
      aap2_parse_btsnoop (header @ body) = map aap2_packet_of (read_records body)) \<and>
   p3_type (pb3_packet_of n r) =
     (if rr_flags r AND 2 \<noteq> 0 then (if rr_flags r AND 1 \<noteq> 0 then EVENT else COMMAND) else ACL) \<and>
   p3_data (pb3_packet_of n r) = rr_data r \<and>
   (pb3_acl_of_packet pkt3 = Some dp \<longrightarrow>
      d_handle dp = unpack_le (slice (p3_data pkt3) 0 2) AND 0x0FFF) \<and>
   p_type (aap_packet_of r) =
     (if rr_flags r AND 2 \<noteq> 0 then (if rr_flags r AND 1 \<noteq> 0 then EVENT else COMMAND) else ACL) \<and>
   p_data (aap_packet_of r) = rr_data r \<and>
   p_type (aap2_packet_of r) =
     (if rr_flags r AND 2 \<noteq> 0 then (if rr_flags r AND 1 \<noteq> 0 then EVENT else COMMAND) else ACL) \<and>
   p_data (aap2_packet_of r) = rr_data r \<and>
   p1_is_command (pb_packet_of n r) = (rr_flags r AND 2 \<noteq> 0) \<and>
   p1_data (pb_packet_of n r) = rr_data r \<and>
   (pb_l2cap_of_packet pkt = Some l \<longrightarrow>
      p1_data pkt \<noteq> [] \<and> unat (p1_data pkt ! 0) = 2 \<and>
      l_handle l = unpack_le (slice (p1_data pkt) 1 3) AND 0x0FFF) \<and>
   (p1_data pkt = [] \<or> unat (p1_data pkt ! 0) \<noteq> 2 \<longrightarrow> pb_l2cap_of_packet pkt = None) \<and>
   pb_l2cap_of_packet (pkt\<lparr>p1_is_command := c, p1_flags := f\<rparr>) = pb_l2cap_of_packet pkt \<and>
   (p2_data pkt2 \<noteq> [] \<longrightarrow>
      pb2_kind_of pkt2 =
        Some (let t = unat (p2_data pkt2 ! 0)
              in if t = 1 then Commands else if t = 4 then Events
                 else if t = 2 then Acl else if t = 3 then Sco else Other))"
proof -
  have a: "length header = 16 \<and> startswith header BTSNOOP_MAGIC \<longrightarrow>
      pb3_parse_btsnoop (header @ body) =
        Inr (pb3_packets 0 (read_records body), unpack_be (slice header 12 16)) \<and>
      pb_parse_btsnoop (header @ body) = Inr (pb_packets 0 (read_records body)) \<and>
      pb2_parse_btsnoop (header @ body) = Inr (pb2_packets 0 (read_records body)) \<and>
      aap_parse_btsnoop (header @ body) = map aap_packet_of (read_records body) \<and>
      aap2_parse_btsnoop (header @ body) = map aap2_packet_of (read_records body)"
    using pb3_parse_btsnoop_header pb_parse_btsnoop_header pb2_parse_btsnoop_header
      aap_parse_btsnoop_header by blast
  have b: "p3_type (pb3_packet_of n r) =
     (if rr_flags r AND 2 \<noteq> 0 then (if rr_flags r AND 1 \<noteq> 0 then EVENT else COMMAND) else ACL)"
    by (simp add: pb3_packet_of_def Let_def)
  have c: "p3_data (pb3_packet_of n r) = rr_data r"
    by (simp add: pb3_packet_of_def Let_def)
  have c3: "pb3_acl_of_packet pkt3 = Some dp \<longrightarrow>
      d_handle dp = unpack_le (slice (p3_data pkt3) 0 2) AND 0x0FFF"
    by (auto simp: pb3_acl_of_packet_def Let_def split: if_splits)
  have p: "p1_is_command (pb_packet_of n r) = (rr_flags r AND 2 \<noteq> 0)"
    "p1_data (pb_packet_of n r) = rr_data r"
    by (simp_all add: pb_packet_of_def)
  have d: "pb_l2cap_of_packet pkt = Some l \<longrightarrow>
      p1_data pkt \<noteq> [] \<and> unat (p1_data pkt ! 0) = 2 \<and>
      l_handle l = unpack_le (slice (p1_data pkt) 1 3) AND 0x0FFF"
    using pb_l2cap_of_packet_eq [of pkt] by (auto simp: Let_def split: if_splits)
  have d': "p1_data pkt = [] \<or> unat (p1_data pkt ! 0) \<noteq> 2 \<longrightarrow> pb_l2cap_of_packet pkt = None"
    using pb_l2cap_of_packet_eq [of pkt] by (auto simp: Let_def)
  have e: "p2_data pkt2 \<noteq> [] \<longrightarrow>
      pb2_kind_of pkt2 =
        Some (let t = unat (p2_data pkt2 ! 0)
              in if t = 1 then Commands else if t = 4 then Events
                 else if t = 2 then Acl else if t = 3 then Sco else Other)"
    by (cases "p2_data pkt2")
      (simp_all add: pb2_kind_of_def Let_def HCI_COMMAND_def HCI_EVENT_def HCI_ACL_DATA_def
        HCI_SCO_DATA_def)
  show ?thesis
    by (intro conjI a b c c3 aap_packet_of_kind p d d' pb_l2cap_flags_free e)
qed

theorem C6_classifier_mode_witness:
  "pb3_parse_btsnoop (capture_header 0xE9 @ event_rec_header @ event_rec_body) =
     Inr ([\<lparr> p3_num = 1, p3_timestamp = 7, p3_direction = TX, p3_type = ACL, p3_flags = 0,
             p3_data = [0x04, 0x0E, 0x00] \<rparr>], 1001) \<and>
   pb_parse_btsnoop (capture_header 0xE9 @ event_rec_header @ event_rec_body) =
     Inr [\<lparr> p1_num = 1, p1_timestamp = 7, p1_direction = TX, p1_is_command = False,
            p1_data = [0x04, 0x0E, 0x00], p1_flags = 0 \<rparr>] \<and>
   aap2_parse_btsnoop (capture_header 0xEA @ event_rec_header @ event_rec_body) =
     [\<lparr> p_timestamp = 7, p_direction = TX, p_type = ACL, p_data = [0x04, 0x0E, 0x00] \<rparr>] \<and>
   pb_l2cap_of_packet \<lparr> p1_num = 1, p1_timestamp = 7, p1_direction = TX, p1_is_command = False,
            p1_data = [0x04, 0x0E, 0x00], p1_flags = 0 \<rparr> = None"
proof -
  define pk where "pk = \<lparr> p1_num = 1, p1_timestamp = 7, p1_direction = TX, p1_is_command = False,
    p1_data = [0x04, 0x0E, 0x00], p1_flags = 0 \<rparr>"
  note t1 = C6_classifier_mode [where header = "capture_header 0xE9"
      and body = "event_rec_header @ event_rec_body" and pkt = pk
      and n = 0 and r = "unpack_rec_header event_rec_header event_rec_body"
      and ?pkt3.0 = "pb3_packet_of 1 (unpack_rec_header event_rec_header event_rec_body)"
      and dp = "uih_data_packet uih_frame_1"
      and l = "\<lparr> l_num = 1, l_direction = TX, l_handle = 1, l_cid = 4, l_payload = [] \<rparr>"
      and c = False and f = 0
      and ?pkt2.0 = "pb2_packet_of 1 (unpack_rec_header event_rec_header event_rec_body)"]
  note t2 = C6_classifier_mode [where header = "capture_header 0xEA"
      and body = "event_rec_header @ event_rec_body" and pkt = pk
      and n = 0 and r = "unpack_rec_header event_rec_header event_rec_body"
      and ?pkt3.0 = "pb3_packet_of 1 (unpack_rec_header event_rec_header event_rec_body)"
      and dp = "uih_data_packet uih_frame_1"
      and l = "\<lparr> l_num = 1, l_direction = TX, l_handle = 1, l_cid = 4, l_payload = [] \<rparr>"
      and c = False and f = 0
      and ?pkt2.0 = "pb2_packet_of 1 (unpack_rec_header event_rec_header event_rec_body)"]
  from t1 have "length (capture_header 0xE9) = 16 \<and> startswith (capture_header 0xE9) BTSNOOP_MAGIC \<longrightarrow>
      pb3_parse_btsnoop (capture_header 0xE9 @ event_rec_header @ event_rec_body) =
        Inr (pb3_packets 0 (read_records (event_rec_header @ event_rec_body)),
             unpack_be (slice (capture_header 0xE9) 12 16)) \<and>
      pb_parse_btsnoop (capture_header 0xE9 @ event_rec_header @ event_rec_body) =
        Inr (pb_packets 0 (read_records (event_rec_header @ event_rec_body))) \<and>
      pb2_parse_btsnoop (capture_header 0xE9 @ event_rec_header @ event_rec_body) =
        Inr (pb2_packets 0 (read_records (event_rec_header @ event_rec_body))) \<and>
      aap_parse_btsnoop (capture_header 0xE9 @ event_rec_header @ event_rec_body) =
        map aap_packet_of (read_records (event_rec_header @ event_rec_body)) \<and>
      aap2_parse_btsnoop (capture_header 0xE9 @ event_rec_header @ event_rec_body) =
        map aap2_packet_of (read_records (event_rec_header @ event_rec_body))"
    by (rule conjunct1)
  with capture_header_ok [of "0xE9"]
  have r1: "pb3_parse_btsnoop (capture_header 0xE9 @ event_rec_header @ event_rec_body) =
        Inr (pb3_packets 0 (read_records (event_rec_header @ event_rec_body)),
             unpack_be (slice (capture_header 0xE9) 12 16))"
    and r2: "pb_parse_btsnoop (capture_header 0xE9 @ event_rec_header @ event_rec_body) =
        Inr (pb_packets 0 (read_records (event_rec_header @ event_rec_body)))"
    by blast+
  from t2 have "length (capture_header 0xEA) = 16 \<and> startswith (capture_header 0xEA) BTSNOOP_MAGIC \<longrightarrow>
      pb3_parse_btsnoop (capture_header 0xEA @ event_rec_header @ event_rec_body) =
        Inr (pb3_packets 0 (read_records (event_rec_header @ event_rec_body)),
             unpack_be (slice (capture_header 0xEA) 12 16)) \<and>
      pb_parse_btsnoop (capture_header 0xEA @ event_rec_header @ event_rec_body) =
        Inr (pb_packets 0 (read_records (event_rec_header @ event_rec_body))) \<and>
      pb2_parse_btsnoop (capture_header 0xEA @ event_rec_header @ event_rec_body) =
        Inr (pb2_packets 0 (read_records (event_rec_header @ event_rec_body))) \<and>
      aap_parse_btsnoop (capture_header 0xEA @ event_rec_header @ event_rec_body) =
        map aap_packet_of (read_records (event_rec_header @ event_rec_body)) \<and>
      aap2_parse_btsnoop (capture_header 0xEA @ event_rec_header @ event_rec_body) =
        map aap2_packet_of (read_records (event_rec_header @ event_rec_body))"
    by (rule conjunct1)
  with capture_header_ok [of "0xEA"]
  have r3: "aap2_parse_btsnoop (capture_header 0xEA @ event_rec_header @ event_rec_body) =
        map aap2_packet_of (read_records (event_rec_header @ event_rec_body))"
    by blast
  from t1 have "p1_data pk = [] \<or> unat (p1_data pk ! 0) \<noteq> 2 \<longrightarrow> pb_l2cap_of_packet pk = None"
    by (elim conjE)
  then have r4: "pb_l2cap_of_packet pk = None"
    by (simp add: pk_def)
  have a: "pb3_parse_btsnoop (capture_header 0xE9 @ event_rec_header @ event_rec_body) =
     Inr ([\<lparr> p3_num = 1, p3_timestamp = 7, p3_direction = TX, p3_type = ACL, p3_flags = 0,
             p3_data = [0x04, 0x0E, 0x00] \<rparr>], 1001)"
    by (simp add: r1 event_rec_read capture_header_link_type pb3_packet_of_def)
  have b: "pb_parse_btsnoop (capture_header 0xE9 @ event_rec_header @ event_rec_body) =
     Inr [\<lparr> p1_num = 1, p1_timestamp = 7, p1_direction = TX, p1_is_command = False,
            p1_data = [0x04, 0x0E, 0x00], p1_flags = 0 \<rparr>]"
    by (simp add: r2 event_rec_read pb_packet_of_def)
  have c: "aap2_parse_btsnoop (capture_header 0xEA @ event_rec_header @ event_rec_body) =
     [\<lparr> p_timestamp = 7, p_direction = TX, p_type = ACL, p_data = [0x04, 0x0E, 0x00] \<rparr>]"
    by (simp add: r3 event_rec_read aap2_packet_of_def)
  show ?thesis
    by (intro conjI a b c r4 [unfolded pk_def])
qed

text \<open>
  The claim as it stands fails in both directions: with link-type 1002 the third parser
  still takes the kind from the flags and does not consume the first byte (here 4, the
  event type), and with link-type 1001 the second parser still takes the first byte as the
  type.
\<close>

theorem C6_counterexample:
  "pb3_parse_btsnoop (capture_header 0xEA @ event_rec_header @ event_rec_body) =
     Inr ([\<lparr> p3_num = 1, p3_timestamp = 7, p3_direction = TX, p3_type = ACL, p3_flags = 0,
             p3_data = [0x04, 0x0E, 0x00] \<rparr>], 1002) \<and>
   pb2_parse_btsnoop (capture_header 0xE9 @ event_rec_header @ event_rec_body) =
     Inr [\<lparr> p2_num = 1, p2_timestamp = 7, p2_direction = TX, p2_flags = 0,
            p2_data = [0x04, 0x0E, 0x00] \<rparr>] \<and>
   pb2_kind_of \<lparr> p2_num = 1, p2_timestamp = 7, p2_direction = TX, p2_flags = 0,
            p2_data = [0x04, 0x0E, 0x00] \<rparr> = Some Events"
proof -
  have a: "pb3_parse_btsnoop (capture_header 0xEA @ event_rec_header @ event_rec_body) =
     Inr ([\<lparr> p3_num = 1, p3_timestamp = 7, p3_direction = TX, p3_type = ACL, p3_flags = 0,
             p3_data = [0x04, 0x0E, 0x00] \<rparr>], 1002)"
    by (simp add: pb3_parse_btsnoop_header [OF capture_header_ok] event_rec_read
        capture_header_link_type pb3_packet_of_def)
  have b: "pb2_parse_btsnoop (capture_header 0xE9 @ event_rec_header @ event_rec_body) =
     Inr [\<lparr> p2_num = 1, p2_timestamp = 7, p2_direction = TX, p2_flags = 0,
            p2_data = [0x04, 0x0E, 0x00] \<rparr>]"
    by (simp add: pb2_parse_btsnoop_header [OF capture_header_ok] event_rec_read pb2_packet_of_def)
  have c: "pb2_kind_of \<lparr> p2_num = 1, p2_timestamp = 7, p2_direction = TX, p2_flags = 0,
            p2_data = [0x04, 0x0E, 0x00] \<rparr> = Some Events"
    by (simp add: pb2_kind_of_def HCI_COMMAND_def HCI_EVENT_def)
  show ?thesis by (intro conjI a b c)
qed

end
